theory Spec2Isabelle
  imports Complex_Main
begin

section \<open>Numbers\<close>

text \<open>
  The analytics engine of \<^verbatim>\<open>streamlit_app.py\<close> computes on numpy \<^verbatim>\<open>float64\<close>
  values. They are modelled as the reals extended with the two infinities and NaN.
  Arithmetic on finite values is exact: rounding, overflow and the sign of zero are not
  part of the model. What the model keeps is every place where the libraries produce a
  value that is not a number (division by zero, a sample statistic on too few
  observations) and how comparisons and the NaN-skipping reductions of pandas treat it.
\<close>

datatype fl = Fin real | PInf | NInf | NaN

fun fl_neg :: "fl \<Rightarrow> fl" where
  "fl_neg (Fin a) = Fin (- a)"
| "fl_neg PInf = NInf"
| "fl_neg NInf = PInf"
| "fl_neg NaN = NaN"

fun fl_add :: "fl \<Rightarrow> fl \<Rightarrow> fl" where
  "fl_add (Fin a) (Fin b) = Fin (a + b)"
| "fl_add NaN _ = NaN"
| "fl_add _ NaN = NaN"
| "fl_add PInf NInf = NaN"
| "fl_add NInf PInf = NaN"
| "fl_add PInf _ = PInf"
| "fl_add _ PInf = PInf"
| "fl_add NInf _ = NInf"
| "fl_add _ NInf = NInf"

definition fl_sub :: "fl \<Rightarrow> fl \<Rightarrow> fl" where
  "fl_sub x y = fl_add x (fl_neg y)"

text \<open>The infinity with the sign of a real, and NaN for zero: the value of \<open>a * inf\<close>.\<close>

definition signed_inf :: "real \<Rightarrow> fl" where
  "signed_inf a = (if a = 0 then NaN else if 0 < a then PInf else NInf)"

fun fl_mul :: "fl \<Rightarrow> fl \<Rightarrow> fl" where
  "fl_mul (Fin a) (Fin b) = Fin (a * b)"
| "fl_mul NaN _ = NaN"
| "fl_mul _ NaN = NaN"
| "fl_mul (Fin a) PInf = signed_inf a"
| "fl_mul (Fin a) NInf = signed_inf (- a)"
| "fl_mul PInf (Fin b) = signed_inf b"
| "fl_mul NInf (Fin b) = signed_inf (- b)"
| "fl_mul PInf PInf = PInf"
| "fl_mul PInf NInf = NInf"
| "fl_mul NInf PInf = NInf"
| "fl_mul NInf NInf = PInf"

text \<open>
  numpy division does not raise: a non-zero number over zero is an infinity, zero over
  zero is NaN. A zero divisor counts as positive zero.
\<close>

fun fl_div :: "fl \<Rightarrow> fl \<Rightarrow> fl" where
  "fl_div (Fin a) (Fin b) = (if b = 0 then signed_inf a else Fin (a / b))"
| "fl_div NaN _ = NaN"
| "fl_div _ NaN = NaN"
| "fl_div (Fin a) PInf = Fin 0"
| "fl_div (Fin a) NInf = Fin 0"
| "fl_div PInf (Fin b) = (if 0 \<le> b then PInf else NInf)"
| "fl_div NInf (Fin b) = (if 0 \<le> b then NInf else PInf)"
| "fl_div _ _ = NaN"

text \<open>Comparisons: every comparison with NaN is false.\<close>

fun fl_le :: "fl \<Rightarrow> fl \<Rightarrow> bool" where
  "fl_le NaN _ = False"
| "fl_le _ NaN = False"
| "fl_le (Fin a) (Fin b) = (a \<le> b)"
| "fl_le NInf _ = True"
| "fl_le _ PInf = True"
| "fl_le _ _ = False"

fun fl_lt :: "fl \<Rightarrow> fl \<Rightarrow> bool" where
  "fl_lt NaN _ = False"
| "fl_lt _ NaN = False"
| "fl_lt (Fin a) (Fin b) = (a < b)"
| "fl_lt NInf NInf = False"
| "fl_lt NInf _ = True"
| "fl_lt PInf PInf = False"
| "fl_lt _ PInf = True"
| "fl_lt _ _ = False"

fun fl_sqrt :: "fl \<Rightarrow> fl" where
  "fl_sqrt (Fin a) = (if a < 0 then NaN else Fin (sqrt a))"
| "fl_sqrt PInf = PInf"
| "fl_sqrt NInf = NaN"
| "fl_sqrt NaN = NaN"

fun is_fin :: "fl \<Rightarrow> bool" where
  "is_fin (Fin a) = True"
| "is_fin _ = False"

fun fl_val :: "fl \<Rightarrow> real" where
  "fl_val (Fin a) = a"
| "fl_val _ = 0"

section \<open>Data frames and the analytics object\<close>

text \<open>
  A pandas \<^verbatim>\<open>DataFrame\<close> is its column labels and its rows, each row holding one cell
  per column. The date index is not modelled: every operation of the engine works on
  frames and series that share one index, so rows are matched by position.
\<close>

record 'a frame =
  columns :: "string list"
  rows :: "'a list list"

definition wf_frame :: "'a frame \<Rightarrow> bool" where
  "wf_frame df = list_all (\<lambda>r. length r = length (columns df)) (rows df)"

text \<open>
  The fields of \<^verbatim>\<open>PortfolioAnalytics\<close> that the engine reads. \<^verbatim>\<open>data\<close> is what
  \<^verbatim>\<open>fetch_data\<close> returned: \<^verbatim>\<open>None\<close>, or a price frame after \<^verbatim>\<open>dropna()\<close>, which
  therefore holds numbers only. \<^verbatim>\<open>weights\<close> is the numpy array built from the
  caller's list of numbers.
\<close>

record portfolio =
  tickers :: "string list"
  weights :: "real list"
  data :: "real frame option"
  returns :: "fl frame option"

datatype error = ValueError

section \<open>Returns calculator\<close>

text \<open>
  \<^verbatim>\<open>DataFrame.pct_change()\<close>: the first row is NaN in every column, each later cell is
  \<^verbatim>\<open>data / data.shift(1) - 1\<close>.
\<close>

definition pct_change_row :: "real list \<Rightarrow> real list \<Rightarrow> fl list" where
  "pct_change_row prev cur = map2 (\<lambda>p c. fl_sub (fl_div (Fin c) (Fin p)) (Fin 1)) prev cur"

definition pct_change :: "real frame \<Rightarrow> fl frame" where
  "pct_change df =
     \<lparr>columns = columns df,
      rows = (case rows df of
                [] \<Rightarrow> []
              | r # rs \<Rightarrow> map (\<lambda>_. NaN) r # map2 pct_change_row (rows df) rs)\<rparr>"

text \<open>\<^verbatim>\<open>DataFrame.dropna()\<close>: a row stays when none of its cells is NaN.\<close>

definition dropna :: "fl frame \<Rightarrow> fl frame" where
  "dropna df = df\<lparr>rows := filter (list_all (\<lambda>c. c \<noteq> NaN)) (rows df)\<rparr>"

definition calculate_returns :: "portfolio \<Rightarrow> fl frame option" where
  "calculate_returns self =
     (case data self of
        Some d \<Rightarrow> Some (dropna (pct_change d))
      | None \<Rightarrow> None)"

section \<open>Portfolio aggregator\<close>

text \<open>
  \<^verbatim>\<open>DataFrame * ndarray\<close> with a one-dimensional array: pandas raises
  \<^verbatim>\<open>ValueError\<close> unless the array has one entry per column, then multiplies every
  row by the array, cell by cell.
\<close>

definition frame_mul :: "fl frame \<Rightarrow> real list \<Rightarrow> error + fl frame" where
  "frame_mul df w =
     (if length (columns df) \<noteq> length w then Inl ValueError
      else Inr (df\<lparr>rows := map (\<lambda>r. map2 (\<lambda>x wa. fl_mul x (Fin wa)) r w) (rows df)\<rparr>))"

text \<open>pandas reductions skip NaN (\<^verbatim>\<open>skipna=True\<close>); the sum of nothing is 0.\<close>

definition skipna :: "fl list \<Rightarrow> fl list" where
  "skipna xs = filter (\<lambda>x. x \<noteq> NaN) xs"

definition nansum :: "fl list \<Rightarrow> fl" where
  "nansum xs = foldl fl_add (Fin 0) (skipna xs)"

definition sum_axis1 :: "fl frame \<Rightarrow> fl list" where
  "sum_axis1 df = map nansum (rows df)"

definition portfolio_returns :: "portfolio \<Rightarrow> error + fl list option" where
  "portfolio_returns self =
     (case returns self of
        Some r \<Rightarrow>
          (case frame_mul r (weights self) of
             Inl e \<Rightarrow> Inl e
           | Inr p \<Rightarrow> Inr (Some (sum_axis1 p)))
      | None \<Rightarrow> Inr None)"

section \<open>Metrics engine\<close>

text \<open>numpy's plain sum, and the pandas reductions that skip NaN.\<close>

definition fl_sum :: "fl list \<Rightarrow> fl" where
  "fl_sum xs = foldl fl_add (Fin 0) xs"

definition nanprod :: "fl list \<Rightarrow> fl" where
  "nanprod xs = foldl fl_mul (Fin 1) (skipna xs)"

text \<open>\<^verbatim>\<open>Series.mean()\<close>: the sum over the count of the values that are not NaN, NaN when
  there is none.\<close>

definition nanmean :: "fl list \<Rightarrow> fl" where
  "nanmean xs =
     (let v = skipna xs in
      if 0 < length v then fl_div (fl_sum v) (Fin (real (length v))) else NaN)"

text \<open>
  \<^verbatim>\<open>Series.std()\<close> is the sample standard deviation (\<^verbatim>\<open>ddof=1\<close>): with \<open>n\<close> values
  that are not NaN, the square root of the sum of squared deviations from their mean
  over \<open>n - 1\<close>, and NaN when \<open>n \<le> 1\<close>. The arithmetic here is exact: in float64 the
  mean of equal values need not be that value, so the program's variance of a constant
  series need not be exactly 0 as it is in this model.
\<close>

definition nanvar :: "fl list \<Rightarrow> fl" where
  "nanvar xs =
     (let v = skipna xs; n = length v in
      if n \<le> 1 then NaN
      else let avg = fl_div (fl_sum v) (Fin (real n));
               sqr = map (\<lambda>x. fl_mul (fl_sub avg x) (fl_sub avg x)) v
           in fl_div (fl_sum sqr) (Fin (real (n - 1))))"

definition nanstd :: "fl list \<Rightarrow> fl" where
  "nanstd xs = fl_sqrt (nanvar xs)"

definition fl_min :: "fl \<Rightarrow> fl \<Rightarrow> fl" where
  "fl_min a b = (if fl_lt b a then b else a)"

definition fl_max :: "fl \<Rightarrow> fl \<Rightarrow> fl" where
  "fl_max a b = (if fl_lt a b then b else a)"

text \<open>\<^verbatim>\<open>Series.min()\<close>: the least of the values that are not NaN, NaN when there is none.\<close>

definition nanmin :: "fl list \<Rightarrow> fl" where
  "nanmin xs = (case skipna xs of [] \<Rightarrow> NaN | y # ys \<Rightarrow> foldl fl_min y ys)"

text \<open>
  \<^verbatim>\<open>Series.cumprod()\<close>: the running product; a NaN entry stays NaN and is left out of
  the product.
\<close>

fun cumprod_from :: "fl \<Rightarrow> fl list \<Rightarrow> fl list" where
  "cumprod_from acc [] = []"
| "cumprod_from acc (x # xs) =
     (if x = NaN then NaN # cumprod_from acc xs
      else fl_mul acc x # cumprod_from (fl_mul acc x) xs)"

definition cumprod :: "fl list \<Rightarrow> fl list" where
  "cumprod xs = cumprod_from (Fin 1) xs"

text \<open>
  \<^verbatim>\<open>Series.expanding().max()\<close>: at each position the greatest value seen so far among
  those that are not NaN, NaN while none has been seen.
\<close>

fun expanding_max_from :: "fl option \<Rightarrow> fl list \<Rightarrow> fl list" where
  "expanding_max_from cur [] = []"
| "expanding_max_from cur (x # xs) =
     (let cur' = (if x = NaN then cur
                  else case cur of None \<Rightarrow> Some x | Some m \<Rightarrow> Some (fl_max m x))
      in (case cur' of None \<Rightarrow> NaN | Some m \<Rightarrow> m) # expanding_max_from cur' xs)"

definition expanding_max :: "fl list \<Rightarrow> fl list" where
  "expanding_max xs = expanding_max_from None xs"

text \<open>
  \<^verbatim>\<open>np.percentile(a, q)\<close> with the default method \<^verbatim>\<open>linear\<close>, for \<open>0 \<le> q \<le> 100\<close> (the
  engine passes 5). The result is NaN when the array holds a NaN. Otherwise the array is
  ordered, the virtual index \<open>(n - 1) * q / 100\<close> is split into the index below it and
  the fraction \<open>gamma\<close>, an index at the upper bound \<open>n - 1\<close> is replaced by \<open>-1\<close> (the
  last entry), and \<^verbatim>\<open>_lerp\<close> interpolates between the two neighbours. The engine calls
  it on a series that is not empty; the model gives NaN on the empty list.
\<close>

fun insort_fl :: "fl \<Rightarrow> fl list \<Rightarrow> fl list" where
  "insort_fl x [] = [x]"
| "insort_fl x (y # ys) = (if fl_le x y then x # y # ys else y # insort_fl x ys)"

definition sort_fl :: "fl list \<Rightarrow> fl list" where
  "sort_fl xs = foldr insort_fl xs []"

definition lerp :: "fl \<Rightarrow> fl \<Rightarrow> real \<Rightarrow> fl" where
  "lerp a b t =
     (let diff_b_a = fl_sub b a in
      if 1 / 2 \<le> t then fl_sub b (fl_mul diff_b_a (Fin (1 - t)))
      else fl_add a (fl_mul diff_b_a (Fin t)))"

definition percentile :: "fl list \<Rightarrow> real \<Rightarrow> fl" where
  "percentile a q =
     (if a = [] \<or> list_ex (\<lambda>x. x = NaN) a then NaN
      else let n = length a;
               arr = sort_fl a;
               virtual_index = real (n - 1) * (q / 100);
               above = (real (n - 1) \<le> virtual_index);
               previous_index = (if above then n - 1 else nat \<lfloor>virtual_index\<rfloor>);
               next_index = (if above then n - 1 else nat \<lfloor>virtual_index\<rfloor> + 1);
               gamma = virtual_index - (if above then - 1 else of_int \<lfloor>virtual_index\<rfloor>)
           in lerp (arr ! previous_index) (arr ! next_index) gamma)"

text \<open>The dictionary that \<^verbatim>\<open>calculate_metrics\<close> returns, one field per key.\<close>

record metrics =
  total_return :: fl
  annualized_return :: fl
  annualized_volatility :: fl
  sharpe_ratio :: fl
  var_95 :: fl
  cvar_95 :: fl
  maximum_drawdown :: fl
  portfolio_rets_series :: "fl list"
  cumulative_returns :: "fl list"
  drawdown_series :: "fl list"

text \<open>
  The body of \<^verbatim>\<open>calculate_metrics\<close> after the guard, on a series that is not empty.
\<close>

definition metrics_of :: "fl list \<Rightarrow> metrics" where
  "metrics_of portfolio_rets =
     (let total_return = fl_sub (nanprod (map (fl_add (Fin 1)) portfolio_rets)) (Fin 1);
          annualized_return = fl_mul (nanmean portfolio_rets) (Fin 252);
          annualized_vol = fl_mul (nanstd portfolio_rets) (Fin (sqrt 252));
          sharpe_ratio = (if fl_lt (Fin 0) annualized_vol
                          then fl_div annualized_return annualized_vol else Fin 0);
          var_95 = percentile portfolio_rets 5;
          tail = filter (\<lambda>x. fl_le x var_95) portfolio_rets;
          cvar_95 = (if 0 < length tail then nanmean tail else var_95);
          cumulative = cumprod (map (fl_add (Fin 1)) portfolio_rets);
          running_max = expanding_max cumulative;
          drawdown = map2 (\<lambda>c m. fl_div (fl_sub c m) m) cumulative running_max;
          max_drawdown = nanmin drawdown
      in \<lparr>total_return = total_return,
          annualized_return = annualized_return,
          annualized_volatility = annualized_vol,
          sharpe_ratio = sharpe_ratio,
          var_95 = var_95,
          cvar_95 = cvar_95,
          maximum_drawdown = max_drawdown,
          portfolio_rets_series = portfolio_rets,
          cumulative_returns = cumulative,
          drawdown_series = drawdown\<rparr>)"

text \<open>
  \<^verbatim>\<open>calculate_metrics\<close>: the empty dictionary \<^verbatim>\<open>{}\<close> is \<open>None\<close>, a filled one is
  \<open>Some\<close>; an exception of \<^verbatim>\<open>portfolio_returns\<close> passes through.
\<close>

definition calculate_metrics :: "portfolio \<Rightarrow> error + metrics option" where
  "calculate_metrics self =
     (case portfolio_returns self of
        Inl e \<Rightarrow> Inl e
      | Inr None \<Rightarrow> Inr None
      | Inr (Some portfolio_rets) \<Rightarrow>
          (if length portfolio_rets = 0 then Inr None
           else Inr (Some (metrics_of portfolio_rets))))"

section \<open>Risk attribution engine\<close>

definition column :: "'a frame \<Rightarrow> nat \<Rightarrow> 'a list" where
  "column df j = map (\<lambda>r. r ! j) (rows df)"

text \<open>
  \<^verbatim>\<open>DataFrame.cov()\<close>: the sample covariance (\<^verbatim>\<open>ddof=1\<close>) of every pair of columns,
  over the rows where neither cell is NaN; NaN when there are fewer than two such rows.
\<close>

definition cov_pair :: "fl list \<Rightarrow> fl list \<Rightarrow> fl" where
  "cov_pair xs ys =
     (let ps = filter (\<lambda>(x, y). x \<noteq> NaN \<and> y \<noteq> NaN) (zip xs ys);
          n = length ps
      in if n \<le> 1 then NaN
         else let mx = fl_div (fl_sum (map fst ps)) (Fin (real n));
                  my = fl_div (fl_sum (map snd ps)) (Fin (real n))
              in fl_div (fl_sum (map (\<lambda>(x, y). fl_mul (fl_sub x mx) (fl_sub y my)) ps))
                        (Fin (real (n - 1))))"

definition cov :: "fl frame \<Rightarrow> fl list list" where
  "cov df =
     (let k = length (columns df)
      in map (\<lambda>a. map (\<lambda>b. cov_pair (column df a) (column df b)) [0..<k]) [0..<k])"

text \<open>
  \<^verbatim>\<open>np.dot\<close> of two vectors and of a matrix with a vector: \<^verbatim>\<open>ValueError\<close> when the
  shapes are not aligned, otherwise plain sums of products.
\<close>

definition dot :: "fl list \<Rightarrow> fl list \<Rightarrow> error + fl" where
  "dot u v =
     (if length u \<noteq> length v then Inl ValueError
      else Inr (fl_sum (map2 fl_mul u v)))"

definition mat_dot :: "nat \<Rightarrow> fl list list \<Rightarrow> fl list \<Rightarrow> error + fl list" where
  "mat_dot k m v =
     (if k \<noteq> length v then Inl ValueError
      else Inr (map (\<lambda>r. fl_sum (map2 fl_mul r v)) m))"

text \<open>The frame that \<^verbatim>\<open>risk_attribution\<close> returns, one field per column.\<close>

record attribution =
  asset :: "string list"
  weight :: "fl list"
  risk_contribution :: "fl list"
  risk_contribution_pct :: "fl list"

text \<open>
  \<^verbatim>\<open>risk_attribution\<close>. The \<^verbatim>\<open>DataFrame\<close> constructor raises \<^verbatim>\<open>ValueError\<close> when
  the ticker list and the arrays differ in length.
\<close>

definition risk_attribution :: "portfolio \<Rightarrow> error + attribution option" where
  "risk_attribution self =
     (case returns self of
        None \<Rightarrow> Inr None
      | Some r \<Rightarrow>
          (let k = length (columns r);
               w = map Fin (weights self);
               cov_matrix = map (map (\<lambda>c. fl_mul c (Fin 252))) (cov r)
           in case mat_dot k cov_matrix w of
                Inl e \<Rightarrow> Inl e
              | Inr cw \<Rightarrow>
                  (case dot w cw of
                     Inl e \<Rightarrow> Inl e
                   | Inr portfolio_variance \<Rightarrow>
                       if fl_le portfolio_variance (Fin 0) then Inr None
                       else (let marginal_contrib = cw;
                                 risk_contrib = map2 (\<lambda>wa ma. fl_div (fl_mul wa ma) portfolio_variance)
                                                  w marginal_contrib
                             in if length (tickers self) \<noteq> length w then Inl ValueError
                                else Inr (Some
                                  \<lparr>asset = tickers self,
                                   weight = w,
                                   risk_contribution = risk_contrib,
                                   risk_contribution_pct =
                                     map (\<lambda>c. fl_mul (fl_div c (fl_sum risk_contrib)) (Fin 100))
                                       risk_contrib\<rparr>)))))"

text \<open>
  The portfolio variance that \<^verbatim>\<open>risk_attribution\<close> computes, when the shapes agree.
\<close>

definition portfolio_variance :: "portfolio \<Rightarrow> fl option" where
  "portfolio_variance self =
     (case returns self of
        None \<Rightarrow> None
      | Some r \<Rightarrow>
          (let w = map Fin (weights self);
               cov_matrix = map (map (\<lambda>c. fl_mul c (Fin 252))) (cov r)
           in case mat_dot (length (columns r)) cov_matrix w of
                Inl e \<Rightarrow> None
              | Inr cw \<Rightarrow> (case dot w cw of Inl e \<Rightarrow> None | Inr pv \<Rightarrow> Some pv)))"

section \<open>The analysis run\<close>

text \<open>
  What \<^verbatim>\<open>main\<close> does once the button is pressed, as the list of what it shows, in
  order. The provider's answer is a parameter. An exception that nothing catches ends
  the run after what was already shown.
\<close>

datatype display =
    Error_message string
  | Show_metrics metrics
  | Show_attribution attribution
  | Uncaught error

definition analyze :: "portfolio \<Rightarrow> real frame option \<Rightarrow> display list" where
  "analyze p fetched =
     (let p1 = p\<lparr>data := fetched\<rparr> in
      if data p1 = None
      then [Error_message ''Unable to fetch data. Please check your ticker symbols and try again.'']
      else let p2 = p1\<lparr>returns := calculate_returns p1\<rparr> in
        if returns p2 = None then [Error_message ''Unable to calculate returns.'']
        else case calculate_metrics p2 of
               Inl e \<Rightarrow> [Uncaught e]
             | Inr None \<Rightarrow> [Error_message ''Unable to calculate portfolio metrics.'']
             | Inr (Some m) \<Rightarrow>
                 Show_metrics m #
                 (case risk_attribution p2 of
                    Inl e \<Rightarrow> [Uncaught e]
                  | Inr None \<Rightarrow> []
                  | Inr (Some a) \<Rightarrow> [Show_attribution a]))"

section \<open>Notions of the specification\<close>

text \<open>
  The specification's data model. A price table holds positive prices, so none is zero; a
  return table holds numbers only, and, being the simple change of positive prices, each
  is greater than -1; a weight vector holds non-negative weights that sum to 1.
\<close>

definition nonzero_prices :: "real frame \<Rightarrow> bool" where
  "nonzero_prices df = list_all (list_all (\<lambda>p. p \<noteq> 0)) (rows df)"

definition positive_prices :: "real frame \<Rightarrow> bool" where
  "positive_prices df = list_all (list_all (\<lambda>p. 0 < p)) (rows df)"

definition finite_frame :: "fl frame \<Rightarrow> bool" where
  "finite_frame df = list_all (list_all is_fin) (rows df)"

definition returns_above_minus_one :: "fl frame \<Rightarrow> bool" where
  "returns_above_minus_one df = list_all (list_all (\<lambda>c. is_fin c \<and> - 1 < fl_val c)) (rows df)"

definition valid_weights :: "real list \<Rightarrow> bool" where
  "valid_weights w = (list_all (\<lambda>a. 0 \<le> a) w \<and> sum_list w = 1)"

text \<open>The specification's weighted sum \<open>\<Sum>\<^sub>a weight[a] \<times> return[t, a]\<close> of one row.\<close>

definition weighted_sum :: "real list \<Rightarrow> real list \<Rightarrow> real" where
  "weighted_sum w row = (\<Sum>a<length w. w ! a * row ! a)"

text \<open>The mean, and the linear-interpolated percentile: with the values in ascending order
  and \<open>h = (n - 1) * q / 100\<close>, the value at position \<open>\<lfloor>h\<rfloor>\<close> plus the fraction \<open>h - \<lfloor>h\<rfloor>\<close>
  of the step to the next value.\<close>

definition mean :: "real list \<Rightarrow> real" where
  "mean xs = sum_list xs / real (length xs)"

definition linear_percentile :: "real list \<Rightarrow> real \<Rightarrow> real" where
  "linear_percentile xs q =
     (let s = sort xs; n = length xs;
          h = real (n - 1) * (q / 100);
          k = nat \<lfloor>h\<rfloor>
      in if k + 1 < n then s ! k + (h - real k) * (s ! (k + 1) - s ! k)
         else s ! (n - 1))"

text \<open>The cumulative return curve, its running maximum and the drawdown curve, on reals.\<close>

fun cumprod_real :: "real \<Rightarrow> real list \<Rightarrow> real list" where
  "cumprod_real acc [] = []"
| "cumprod_real acc (x # xs) = (acc * x) # cumprod_real (acc * x) xs"

fun running_max :: "real \<Rightarrow> real list \<Rightarrow> real list" where
  "running_max m [] = []"
| "running_max m (x # xs) = max m x # running_max (max m x) xs"

definition drawdown_real :: "real list \<Rightarrow> real list" where
  "drawdown_real cs = map2 (\<lambda>c mx. (c - mx) / mx) cs (running_max (hd cs) cs)"

section \<open>Finite values\<close>

text \<open>On numbers the extended operations are the operations of the reals.\<close>

lemma is_fin_conv: "is_fin x \<longleftrightarrow> x = Fin (fl_val x)"
  by (cases x) simp_all

lemma list_all_is_fin_conv: "list_all is_fin xs \<longleftrightarrow> xs = map Fin (map fl_val xs)"
  by (induction xs) (auto simp: is_fin_conv)

lemma fl_div_NaN_right [simp]: "fl_div x NaN = NaN"
  by (cases x) simp_all

lemma fl_mul_NaN_right [simp]: "fl_mul x NaN = NaN"
  by (cases x) simp_all

lemma skipna_map_Fin [simp]: "skipna (map Fin xs) = map Fin xs"
  by (induction xs) (simp_all add: skipna_def)

lemma foldl_fl_add_Fin: "foldl fl_add (Fin a) (map Fin xs) = Fin (a + sum_list xs)"
  by (induction xs arbitrary: a) (simp_all add: add.assoc)

lemma fl_sum_map_Fin [simp]: "fl_sum (map Fin xs) = Fin (sum_list xs)"
  by (simp add: fl_sum_def foldl_fl_add_Fin)

lemma nansum_map_Fin [simp]: "nansum (map Fin xs) = Fin (sum_list xs)"
  by (simp add: nansum_def foldl_fl_add_Fin)

lemma nanmean_Fin: "xs \<noteq> [] \<Longrightarrow> nanmean (map Fin xs) = Fin (mean xs)"
  by (simp add: nanmean_def mean_def Let_def)

text \<open>A sum is a number only when every summand is.\<close>

lemma fl_add_not_fin: "\<not> is_fin z \<Longrightarrow> \<not> is_fin (fl_add z x)"
  by (cases z; cases x) simp_all

lemma foldl_fl_add_not_fin: "\<not> is_fin z \<Longrightarrow> \<not> is_fin (foldl fl_add z xs)"
  by (induction xs arbitrary: z) (simp_all add: fl_add_not_fin)

lemma foldl_fl_add_Fin_imp:
  assumes "foldl fl_add (Fin a) xs = Fin v"
  shows "\<exists>ys. xs = map Fin ys \<and> a + sum_list ys = v"
  using assms
proof (induction xs arbitrary: a)
  case Nil
  then show ?case by simp
next
  case (Cons x xs)
  have absorbed: False if "\<not> is_fin x"
  proof -
    from that have "\<not> is_fin (fl_add (Fin a) x)" by (cases x) simp_all
    then have "\<not> is_fin (foldl fl_add (fl_add (Fin a) x) xs)"
      by (rule foldl_fl_add_not_fin)
    with Cons.prems show False by simp
  qed
  then obtain b where x: "x = Fin b" by (cases x) auto
  with Cons.prems have "foldl fl_add (Fin (a + b)) xs = Fin v" by simp
  from Cons.IH [OF this] obtain ys where "xs = map Fin ys" "a + b + sum_list ys = v" by blast
  with x have "x # xs = map Fin (b # ys) \<and> a + sum_list (b # ys) = v" by simp
  then show ?case by (rule exI)
qed

lemma fl_sum_Fin_imp:
  assumes "fl_sum xs = Fin v"
  shows "\<exists>ys. xs = map Fin ys \<and> sum_list ys = v"
  using foldl_fl_add_Fin_imp [of 0 xs v] assms by (simp add: fl_sum_def)

section \<open>The returns calculator\<close>

lemma pct_change_row_nth:
  assumes "a < length prev" and "a < length cur" and "prev ! a \<noteq> 0"
  shows "pct_change_row prev cur ! a = Fin ((cur ! a - prev ! a) / prev ! a)"
  using assms by (simp add: pct_change_row_def fl_sub_def diff_divide_distrib)

lemma pct_change_row_no_nan:
  assumes "list_all (\<lambda>p. p \<noteq> 0) prev"
  shows "list_all (\<lambda>c. c \<noteq> NaN) (pct_change_row prev cur)"
  using assms
  by (auto simp: pct_change_row_def list_all_iff fl_sub_def dest!: set_zip_leftD)

lemma map2_pct_change_no_nan:
  assumes "list_all (list_all (\<lambda>p. p \<noteq> 0)) prevs"
  shows "filter (list_all (\<lambda>c. c \<noteq> NaN)) (map2 pct_change_row prevs curs)
           = map2 pct_change_row prevs curs"
proof -
  have "list_all (\<lambda>c. c \<noteq> NaN) row" if "row \<in> set (map2 pct_change_row prevs curs)" for row
  proof -
    from that obtain prev cur
      where "(prev, cur) \<in> set (zip prevs curs)" and row: "row = pct_change_row prev cur"
      by auto
    then have "prev \<in> set prevs" by (auto dest: set_zip_leftD)
    with assms have "list_all (\<lambda>p. p \<noteq> 0) prev" by (simp add: list_all_iff)
    with row show ?thesis by (simp add: pct_change_row_no_nan)
  qed
  then show ?thesis by (simp only: filter_id_conv) blast
qed

text \<open>The NaN row that \<^verbatim>\<open>pct_change\<close> puts first is the one row that \<^verbatim>\<open>dropna\<close> removes.\<close>

lemma returns_rows:
  assumes "rows d = r # rs" and "r \<noteq> []" and "nonzero_prices d"
  shows "rows (dropna (pct_change d)) = map2 pct_change_row (r # rs) rs"
proof -
  have "\<not> list_all (\<lambda>c. c \<noteq> NaN) (map (\<lambda>_. NaN) r)"
    using assms(2) by (cases r) simp_all
  moreover have "list_all (list_all (\<lambda>p. p \<noteq> 0)) (r # rs)"
    using assms(1,3) by (simp add: nonzero_prices_def)
  ultimately show ?thesis
    using assms(1) map2_pct_change_no_nan [of "r # rs" rs]
    by (simp add: dropna_def pct_change_def)
qed

text \<open>
  Claim C2. For a price table with at least one column and no zero price,
  \<^verbatim>\<open>calculate_returns\<close> returns a table (it does not raise) with the same columns; with
  N \<ge> 2 price rows it has N - 1 rows, with fewer than 2 it has none; and the cell for
  row t and asset a is (price[t, a] - price[t-1, a]) / price[t-1, a].
\<close>

theorem calculate_returns_rows:
  assumes "data self = Some d" and "wf_frame d" and "columns d \<noteq> []" and "nonzero_prices d"
  shows "\<exists>rt. calculate_returns self = Some rt
           \<and> columns rt = columns d
           \<and> (2 \<le> length (rows d) \<longrightarrow> length (rows rt) = length (rows d) - 1)
           \<and> (length (rows d) < 2 \<longrightarrow> rows rt = [])
           \<and> (\<forall>t a. 1 \<le> t \<and> t < length (rows d) \<and> a < length (columns d) \<longrightarrow>
                 rows rt ! (t - 1) ! a
                   = Fin ((rows d ! t ! a - rows d ! (t - 1) ! a) / rows d ! (t - 1) ! a))"
proof -
  let ?rt = "dropna (pct_change d)"
  have run: "calculate_returns self = Some ?rt"
    using assms(1) by (simp add: calculate_returns_def)
  have cols: "columns ?rt = columns d"
    by (simp add: dropna_def pct_change_def)
  show ?thesis
  proof (cases "rows d")
    case Nil
    then have "rows ?rt = []" by (simp add: dropna_def pct_change_def)
    with run cols Nil show ?thesis by simp
  next
    case (Cons r rs)
    from assms(2) Cons have len: "\<And>row. row \<in> set (r # rs) \<Longrightarrow> length row = length (columns d)"
      by (auto simp: wf_frame_def list_all_iff)
    then have "r \<noteq> []" using assms(3) by fastforce
    with Cons assms(4) have rows: "rows ?rt = map2 pct_change_row (r # rs) rs"
      by (simp add: returns_rows)
    have cell: "rows ?rt ! (t - 1) ! a
                 = Fin ((rows d ! t ! a - rows d ! (t - 1) ! a) / rows d ! (t - 1) ! a)"
      if t: "1 \<le> t" "t < length (rows d)" and a: "a < length (columns d)" for t a
    proof -
      from t obtain u where u: "t = Suc u" by (cases t) simp_all
      with t Cons have ul: "u < length rs" by simp
      then have prev: "(r # rs) ! u \<in> set (r # rs)" and cur: "rs ! u \<in> set (r # rs)"
        by (auto simp: nth_Cons')
      from ul have "rows ?rt ! u = pct_change_row ((r # rs) ! u) (rs ! u)"
        by (simp add: rows)
      moreover have "a < length ((r # rs) ! u)" "a < length (rs ! u)"
        using len [OF prev] len [OF cur] a by simp_all
      moreover have "(r # rs) ! u ! a \<noteq> 0"
        using assms(4) Cons prev \<open>a < length ((r # rs) ! u)\<close>
        by (auto simp: nonzero_prices_def list_all_iff simp del: set_ConsD)
      ultimately have "rows ?rt ! u ! a = Fin ((rs ! u ! a - (r # rs) ! u ! a) / (r # rs) ! u ! a)"
        by (simp add: pct_change_row_nth)
      with u Cons show ?thesis by simp
    qed
    from rows Cons have "length (rows ?rt) = length (rows d) - 1" by simp
    moreover from this have "length (rows d) < 2 \<longrightarrow> rows ?rt = []" by auto
    ultimately show ?thesis using run cols cell by auto
  qed
qed

text \<open>The specification's example: prices [100, 110, 99] give the returns [0.10, -0.10].\<close>

theorem calculate_returns_rows_witness:
  "\<exists>rt. calculate_returns \<lparr>tickers = [''A''], weights = [1],
             data = Some \<lparr>columns = [''A''], rows = [[100], [110], [99]]\<rparr>,
             returns = None\<rparr> = Some rt
      \<and> columns rt = [''A'']
      \<and> length (rows rt) = 2
      \<and> rows rt ! 0 ! 0 = Fin (1/10) \<and> rows rt ! 1 ! 0 = Fin (- (1/10))"
proof -
  let ?d = "\<lparr>columns = [''A''], rows = [[100], [110], [99]]\<rparr> :: real frame"
  let ?p = "\<lparr>tickers = [''A''], weights = [1], data = Some ?d, returns = None\<rparr>"
  have "\<exists>rt. calculate_returns ?p = Some rt
           \<and> columns rt = columns ?d
           \<and> (2 \<le> length (rows ?d) \<longrightarrow> length (rows rt) = length (rows ?d) - 1)
           \<and> (length (rows ?d) < 2 \<longrightarrow> rows rt = [])
           \<and> (\<forall>t a. 1 \<le> t \<and> t < length (rows ?d) \<and> a < length (columns ?d) \<longrightarrow>
                 rows rt ! (t - 1) ! a
                   = Fin ((rows ?d ! t ! a - rows ?d ! (t - 1) ! a) / rows ?d ! (t - 1) ! a))"
    by (rule calculate_returns_rows) (simp_all add: wf_frame_def nonzero_prices_def)
  then obtain rt where rt: "calculate_returns ?p = Some rt" "columns rt = columns ?d"
    "2 \<le> length (rows ?d) \<longrightarrow> length (rows rt) = length (rows ?d) - 1"
    "\<forall>t a. 1 \<le> t \<and> t < length (rows ?d) \<and> a < length (columns ?d) \<longrightarrow>
                 rows rt ! (t - 1) ! a
                   = Fin ((rows ?d ! t ! a - rows ?d ! (t - 1) ! a) / rows ?d ! (t - 1) ! a)"
    by blast
  from rt(4) [rule_format, of 1 0] have "rows rt ! 0 ! 0 = Fin (1/10)" by simp
  moreover from rt(4) [rule_format, of 2 0] have "rows rt ! 1 ! 0 = Fin (- (1/10))" by simp
  moreover from rt(3) have "length (rows rt) = 2" by simp
  ultimately show ?thesis using rt(1,2) by simp
qed

text \<open>The return table of a table of positive prices: numbers greater than -1.\<close>

lemma returns_of_positive_prices:
  assumes "data self = Some d" and "wf_frame d" and "columns d \<noteq> []" and "positive_prices d"
  shows "\<exists>r. calculate_returns self = Some r \<and> columns r = columns d \<and> wf_frame r
           \<and> returns_above_minus_one r \<and> length (rows r) = length (rows d) - 1"
proof -
  let ?r = "dropna (pct_change d)"
  have run: "calculate_returns self = Some ?r"
    using assms(1) by (simp add: calculate_returns_def)
  have cols: "columns ?r = columns d"
    by (simp add: dropna_def pct_change_def)
  from assms(4) have nz: "nonzero_prices d"
    by (auto simp: positive_prices_def nonzero_prices_def list_all_iff)
  show ?thesis
  proof (cases "rows d")
    case Nil
    then have "rows ?r = []" by (simp add: dropna_def pct_change_def)
    with run cols Nil show ?thesis
      by (simp add: wf_frame_def returns_above_minus_one_def)
  next
    case (Cons p ps)
    from assms(2) Cons have len: "\<And>row. row \<in> set (p # ps) \<Longrightarrow> length row = length (columns d)"
      by (auto simp: wf_frame_def list_all_iff)
    then have "p \<noteq> []" using assms(3) by fastforce
    with Cons nz have rows: "rows ?r = map2 pct_change_row (p # ps) ps"
      by (simp add: returns_rows)
    have row_ok: "length row = length (columns d) \<and> list_all (\<lambda>c. is_fin c \<and> - 1 < fl_val c) row"
      if "row \<in> set (rows ?r)" for row
    proof -
      from that rows obtain prev cur where pc: "(prev, cur) \<in> set (zip (p # ps) ps)"
        and row: "row = pct_change_row prev cur" by auto
      from pc have prev: "prev \<in> set (p # ps)" and cur: "cur \<in> set (p # ps)"
        by (auto dest: set_zip_leftD set_zip_rightD)
      from prev cur assms(4) Cons have pos: "\<forall>x\<in>set prev. 0 < x" "\<forall>x\<in>set cur. 0 < x"
        by (auto simp: positive_prices_def list_all_iff)
      have "is_fin c \<and> - 1 < fl_val c" if "c \<in> set row" for c
      proof -
        from that row obtain a b where ab: "(a, b) \<in> set (zip prev cur)"
          and c: "c = fl_sub (fl_div (Fin b) (Fin a)) (Fin 1)"
          by (auto simp: pct_change_row_def)
        from ab pos have "0 < a" "0 < b" by (auto dest: set_zip_leftD set_zip_rightD)
        then show ?thesis by (simp add: c fl_sub_def)
      qed
      moreover have "length row = length (columns d)"
        using len [OF prev] len [OF cur] by (simp add: row pct_change_row_def)
      ultimately show ?thesis by (simp add: list_all_iff)
    qed
    then have "wf_frame ?r" "returns_above_minus_one ?r"
      using cols by (simp_all add: wf_frame_def returns_above_minus_one_def list_all_iff)
    moreover from rows Cons have "length (rows ?r) = length (rows d) - 1" by simp
    ultimately show ?thesis using run cols by simp
  qed
qed

section \<open>The portfolio aggregator\<close>

lemma map2_mul_Fin:
  "map2 (\<lambda>x wa. fl_mul x (Fin wa)) (map Fin xs) w = map Fin (map2 (\<lambda>x wa. x * wa) xs w)"
proof (induction xs arbitrary: w)
  case Nil
  show ?case by simp
next
  case (Cons x xs)
  then show ?case by (cases w) simp_all
qed

lemma sum_list_map2_weighted:
  "length xs = length w \<Longrightarrow> sum_list (map2 (\<lambda>x wa. x * wa) xs w) = weighted_sum w xs"
proof (induction xs w rule: list_induct2)
  case Nil
  then show ?case by (simp add: weighted_sum_def)
next
  case (Cons x xs y ys)
  have "(\<Sum>a<Suc (length ys). (y # ys) ! a * (x # xs) ! a)
          = y * x + (\<Sum>a<length ys. ys ! a * xs ! a)"
    unfolding sum.lessThan_Suc_shift by simp
  with Cons show ?case by (simp add: weighted_sum_def mult.commute)
qed

lemma row_weighted_sum:
  assumes "list_all is_fin row" and "length row = length w"
  shows "nansum (map2 (\<lambda>x wa. fl_mul x (Fin wa)) row w) = Fin (weighted_sum w (map fl_val row))"
proof -
  from assms(1) have row: "row = map Fin (map fl_val row)"
    by (simp add: list_all_is_fin_conv)
  have "nansum (map2 (\<lambda>x wa. fl_mul x (Fin wa)) (map Fin (map fl_val row)) w)
        = Fin (weighted_sum w (map fl_val row))"
    using assms(2) by (simp only: map2_mul_Fin nansum_map_Fin sum_list_map2_weighted length_map)
  with row show ?thesis by simp
qed

lemma portfolio_returns_series:
  assumes "returns self = Some r" and "wf_frame r" and "finite_frame r"
    and "length (weights self) = length (columns r)"
  shows "portfolio_returns self
           = Inr (Some (map Fin (map (\<lambda>row. weighted_sum (weights self) (map fl_val row)) (rows r))))"
proof -
  let ?w = "weights self"
  have run: "portfolio_returns self
               = Inr (Some (map (\<lambda>row. nansum (map2 (\<lambda>x wa. fl_mul x (Fin wa)) row ?w)) (rows r)))"
    using assms(1,4) by (simp add: portfolio_returns_def frame_mul_def sum_axis1_def comp_def)
  have "nansum (map2 (\<lambda>x wa. fl_mul x (Fin wa)) row ?w) = Fin (weighted_sum ?w (map fl_val row))"
    if "row \<in> set (rows r)" for row
  proof -
    from that assms(2,3,4) have "list_all is_fin row" and "length row = length ?w"
      by (auto simp: wf_frame_def finite_frame_def list_all_iff)
    then show ?thesis by (rule row_weighted_sum)
  qed
  then have "map (\<lambda>row. nansum (map2 (\<lambda>x wa. fl_mul x (Fin wa)) row ?w)) (rows r)
               = map Fin (map (\<lambda>row. weighted_sum ?w (map fl_val row)) (rows r))"
    by simp
  with run show ?thesis by simp
qed

text \<open>
  Claim C1. For a return table of N rows and K columns that holds numbers, and a weight
  vector of length K, \<^verbatim>\<open>portfolio_returns\<close> produces a series of N values, and the
  value at every position t is the weighted sum of row t. In the model the equality is
  exact, hence within every tolerance.
\<close>

theorem portfolio_returns_weighted_sum:
  assumes "returns self = Some r" and "wf_frame r" and "finite_frame r"
    and "length (weights self) = length (columns r)"
  shows "\<exists>series. portfolio_returns self = Inr (Some series)
           \<and> length series = length (rows r)
           \<and> (\<forall>t<length (rows r).
                 series ! t = Fin (weighted_sum (weights self) (map fl_val (rows r ! t))))"
proof -
  let ?w = "weights self"
  let ?series = "map (\<lambda>row. nansum (map2 (\<lambda>x wa. fl_mul x (Fin wa)) row ?w)) (rows r)"
  have run: "portfolio_returns self = Inr (Some ?series)"
    using assms(1,4) by (simp add: portfolio_returns_def frame_mul_def sum_axis1_def comp_def)
  have "?series ! t = Fin (weighted_sum ?w (map fl_val (rows r ! t)))" if "t < length (rows r)" for t
  proof -
    from that have mem: "rows r ! t \<in> set (rows r)" by simp
    with assms(2,3) have "list_all is_fin (rows r ! t)" and "length (rows r ! t) = length ?w"
      using assms(4) by (auto simp: wf_frame_def finite_frame_def list_all_iff)
    then show ?thesis using that by (simp add: row_weighted_sum)
  qed
  with run show ?thesis by simp
qed

text \<open>
  The specification's example: returns A = [0.02, -0.01, 0.03], B = [0.01, 0.00, -0.02]
  and weights [0.6, 0.4] give the series [0.016, -0.006, 0.010].
\<close>

theorem portfolio_returns_weighted_sum_witness:
  "\<exists>series. portfolio_returns \<lparr>tickers = [''A'', ''B''], weights = [6/10, 4/10], data = None,
                 returns = Some \<lparr>columns = [''A'', ''B''],
                                rows = [[Fin (2/100), Fin (1/100)], [Fin (-1/100), Fin 0],
                                        [Fin (3/100), Fin (-2/100)]]\<rparr>\<rparr> = Inr (Some series)
      \<and> length series = 3
      \<and> series ! 0 = Fin (16/1000) \<and> series ! 1 = Fin (-6/1000) \<and> series ! 2 = Fin (10/1000)"
proof -
  let ?r = "\<lparr>columns = [''A'', ''B''],
             rows = [[Fin (2/100), Fin (1/100)], [Fin (-1/100), Fin 0],
                     [Fin (3/100), Fin (-2/100)]]\<rparr> :: fl frame"
  let ?p = "\<lparr>tickers = [''A'', ''B''], weights = [6/10, 4/10], data = None, returns = Some ?r\<rparr>"
  have "\<exists>series. portfolio_returns ?p = Inr (Some series)
           \<and> length series = length (rows ?r)
           \<and> (\<forall>t<length (rows ?r).
                 series ! t = Fin (weighted_sum (weights ?p) (map fl_val (rows ?r ! t))))"
    by (rule portfolio_returns_weighted_sum)
       (simp_all add: wf_frame_def finite_frame_def)
  then obtain series where s: "portfolio_returns ?p = Inr (Some series)"
    "length series = length (rows ?r)"
    "\<forall>t<length (rows ?r). series ! t = Fin (weighted_sum (weights ?p) (map fl_val (rows ?r ! t)))"
    by blast
  have len: "length (rows ?r) = 3" by simp
  from s(3) len have "series ! 0 = Fin (weighted_sum [6/10, 4/10] (map fl_val (rows ?r ! 0)))"
    "series ! 1 = Fin (weighted_sum [6/10, 4/10] (map fl_val (rows ?r ! 1)))"
    "series ! 2 = Fin (weighted_sum [6/10, 4/10] (map fl_val (rows ?r ! 2)))"
    by simp_all
  then have "series ! 0 = Fin (16/1000)" "series ! 1 = Fin (-6/1000)" "series ! 2 = Fin (10/1000)"
    by (simp_all add: weighted_sum_def lessThan_Suc numeral_2_eq_2)
  with s(1,2) len show ?thesis by auto
qed

text \<open>
  Claim C9. When the return frame has K columns and the weight array has another
  length, \<^verbatim>\<open>portfolio_returns\<close> raises \<^verbatim>\<open>ValueError\<close>: no series is produced,
  nothing is cut or padded to make the lengths agree.
\<close>

theorem aggregator_rejects_length_mismatch:
  assumes "returns self = Some r" and "length (weights self) \<noteq> length (columns r)"
  shows "portfolio_returns self = Inl ValueError"
  using assms by (auto simp: portfolio_returns_def frame_mul_def)

theorem aggregator_rejects_length_mismatch_witness:
  "portfolio_returns \<lparr>tickers = [''A'', ''B''], weights = [1],
       data = None,
       returns = Some \<lparr>columns = [''A'', ''B''], rows = [[Fin 1, Fin 2]]\<rparr>\<rparr> = Inl ValueError"
  by (rule aggregator_rejects_length_mismatch
        [where r = "\<lparr>columns = [''A'', ''B''], rows = [[Fin 1, Fin 2]]\<rparr>"]) simp_all

section \<open>The metrics engine: the bundle and the Sharpe ratio\<close>

lemma nanstd_single: "nanstd [x] = NaN"
  by (simp add: nanstd_def nanvar_def skipna_def Let_def)

text \<open>
  Claim C8. When the portfolio return series is empty, \<^verbatim>\<open>calculate_metrics\<close> returns
  the empty dictionary: one signal for the whole bundle, with no metric and no curve in
  it.
\<close>

theorem empty_series_no_metrics:
  assumes "portfolio_returns self = Inr (Some [])"
  shows "calculate_metrics self = Inr None"
  using assms by (simp add: calculate_metrics_def)

theorem empty_series_no_metrics_witness:
  "calculate_metrics \<lparr>tickers = [''A''], weights = [1], data = None,
       returns = Some \<lparr>columns = [''A''], rows = []\<rparr>\<rparr> = Inr None"
  by (rule empty_series_no_metrics)
     (simp add: portfolio_returns_def frame_mul_def sum_axis1_def)

text \<open>
  Claim C10. For a series of exactly one observation \<^verbatim>\<open>calculate_metrics\<close> returns a
  filled bundle; the sample standard deviation is NaN, so the annualized volatility is
  NaN and the test \<^verbatim>\<open>annualized_vol > 0\<close> fails; the Sharpe ratio is 0, not NaN.
\<close>

theorem single_observation_sharpe_zero:
  assumes "portfolio_returns self = Inr (Some [x])"
  shows "\<exists>m. calculate_metrics self = Inr (Some m)
           \<and> annualized_volatility m = NaN
           \<and> \<not> fl_lt (Fin 0) (annualized_volatility m)
           \<and> sharpe_ratio m = Fin 0"
  using assms
  by (simp add: calculate_metrics_def metrics_of_def nanstd_single Let_def)

theorem single_observation_sharpe_zero_witness:
  "\<exists>m. calculate_metrics \<lparr>tickers = [''A''], weights = [1], data = None,
       returns = Some \<lparr>columns = [''A''], rows = [[Fin (1/10)]]\<rparr>\<rparr> = Inr (Some m)
           \<and> annualized_volatility m = NaN
           \<and> \<not> fl_lt (Fin 0) (annualized_volatility m)
           \<and> sharpe_ratio m = Fin 0"
  by (rule single_observation_sharpe_zero [where x = "Fin (1/10)"])
     (simp add: portfolio_returns_def frame_mul_def sum_axis1_def nansum_def skipna_def)

text \<open>
  Claim C3, as amended. For every series that is not empty, the Sharpe ratio is the
  annualized return over the annualized volatility when the computed volatility is a
  positive number, and exactly 0 otherwise: when the computed volatility is 0, and when
  it is NaN, as it is for a single observation. The statement is about the volatility
  that the engine computes; it does not say for which series that volatility is 0.
\<close>

theorem sharpe_ratio_guard:
  assumes "portfolio_returns self = Inr (Some series)" and "series \<noteq> []"
  shows "\<exists>m. calculate_metrics self = Inr (Some m)
           \<and> annualized_return m = fl_mul (nanmean series) (Fin 252)
           \<and> annualized_volatility m = fl_mul (nanstd series) (Fin (sqrt 252))
           \<and> (fl_lt (Fin 0) (annualized_volatility m) \<longrightarrow>
                 sharpe_ratio m = fl_div (annualized_return m) (annualized_volatility m))
           \<and> (\<not> fl_lt (Fin 0) (annualized_volatility m) \<longrightarrow> sharpe_ratio m = Fin 0)
           \<and> (annualized_volatility m = Fin 0 \<longrightarrow> sharpe_ratio m = Fin 0)
           \<and> (annualized_volatility m = NaN \<longrightarrow> sharpe_ratio m = Fin 0)"
proof -
  let ?m = "metrics_of series"
  have run: "calculate_metrics self = Inr (Some ?m)"
    using assms by (simp add: calculate_metrics_def)
  have ar: "annualized_return ?m = fl_mul (nanmean series) (Fin 252)"
    and av: "annualized_volatility ?m = fl_mul (nanstd series) (Fin (sqrt 252))"
    and sr: "sharpe_ratio ?m = (if fl_lt (Fin 0) (annualized_volatility ?m)
                                then fl_div (annualized_return ?m) (annualized_volatility ?m)
                                else Fin 0)"
    by (simp_all add: metrics_of_def Let_def)
  from sr have zero: "annualized_volatility ?m = Fin 0 \<longrightarrow> sharpe_ratio ?m = Fin 0"
    and nan: "annualized_volatility ?m = NaN \<longrightarrow> sharpe_ratio ?m = Fin 0"
    by auto
  from sr have pos: "fl_lt (Fin 0) (annualized_volatility ?m) \<longrightarrow>
                 sharpe_ratio ?m = fl_div (annualized_return ?m) (annualized_volatility ?m)"
    and npos: "\<not> fl_lt (Fin 0) (annualized_volatility ?m) \<longrightarrow> sharpe_ratio ?m = Fin 0"
    by simp_all
  from run ar av pos npos zero nan show ?thesis
    by blast
qed

text \<open>
  Two returns that differ, 0.1 and 0.3: the volatility is positive and the Sharpe ratio
  is the quotient.
\<close>

theorem sharpe_ratio_guard_witness:
  "\<exists>m. calculate_metrics \<lparr>tickers = [''A''], weights = [1], data = None,
       returns = Some \<lparr>columns = [''A''], rows = [[Fin (1/10)], [Fin (3/10)]]\<rparr>\<rparr> = Inr (Some m)
     \<and> annualized_return m = Fin (252 / 5)
     \<and> annualized_volatility m = Fin (sqrt (1/50) * sqrt 252)
     \<and> fl_lt (Fin 0) (annualized_volatility m)
     \<and> sharpe_ratio m = fl_div (annualized_return m) (annualized_volatility m)"
proof -
  let ?p = "\<lparr>tickers = [''A''], weights = [1], data = None,
       returns = Some \<lparr>columns = [''A''], rows = [[Fin (1/10)], [Fin (3/10)]]\<rparr>\<rparr>"
  let ?s = "[Fin (1/10), Fin (3/10)]"
  have pr: "portfolio_returns ?p = Inr (Some ?s)"
    by (simp add: portfolio_returns_def frame_mul_def sum_axis1_def nansum_def skipna_def)
  have ne: "?s \<noteq> []" by simp
  from sharpe_ratio_guard [OF pr ne] obtain m where m: "calculate_metrics ?p = Inr (Some m)"
    "annualized_return m = fl_mul (nanmean ?s) (Fin 252)"
    "annualized_volatility m = fl_mul (nanstd ?s) (Fin (sqrt 252))"
    "fl_lt (Fin 0) (annualized_volatility m) \<longrightarrow>
       sharpe_ratio m = fl_div (annualized_return m) (annualized_volatility m)"
    by blast
  have "nanmean ?s = Fin (1/5)"
    by (simp add: nanmean_def skipna_def fl_sum_def Let_def)
  with m(2) have ar: "annualized_return m = Fin (252 / 5)" by simp
  have "nanstd ?s = Fin (sqrt (1/50))"
    by (simp add: nanstd_def nanvar_def skipna_def fl_sum_def fl_sub_def Let_def)
  with m(3) have av: "annualized_volatility m = Fin (sqrt (1/50) * sqrt 252)" by simp
  then have pos: "fl_lt (Fin 0) (annualized_volatility m)" by simp
  with m(4) have "sharpe_ratio m = fl_div (annualized_return m) (annualized_volatility m)"
    by simp
  with m(1) ar av pos show ?thesis by blast
qed

text \<open>
  Claim C3, as stated, fails on a single observation: the volatility is NaN, not 0, and
  the Sharpe ratio is 0, which is not the quotient of return and volatility (NaN).
\<close>

theorem sharpe_ratio_not_quotient_counterexample:
  "calculate_metrics \<lparr>tickers = [''A''], weights = [1], data = None,
       returns = Some \<lparr>columns = [''A''], rows = [[Fin (1/10)]]\<rparr>\<rparr>
     = Inr (Some (metrics_of [Fin (1/10)]))
   \<and> annualized_volatility (metrics_of [Fin (1/10)]) \<noteq> Fin 0
   \<and> fl_div (annualized_return (metrics_of [Fin (1/10)]))
         (annualized_volatility (metrics_of [Fin (1/10)])) = NaN
   \<and> sharpe_ratio (metrics_of [Fin (1/10)]) = Fin 0
   \<and> sharpe_ratio (metrics_of [Fin (1/10)])
       \<noteq> fl_div (annualized_return (metrics_of [Fin (1/10)]))
           (annualized_volatility (metrics_of [Fin (1/10)]))"
  by (simp add: calculate_metrics_def portfolio_returns_def frame_mul_def sum_axis1_def
        nansum_def skipna_def metrics_of_def nanstd_single Let_def)

section \<open>The metrics engine: VaR and CVaR\<close>

text \<open>On numbers, numpy's percentile is the linear-interpolated percentile.\<close>

lemma insort_fl_Fin: "insort_fl (Fin x) (map Fin ys) = map Fin (insort x ys)"
  by (induction ys) simp_all

lemma sort_fl_Fin: "sort_fl (map Fin xs) = map Fin (sort xs)"
proof (induction xs)
  case Nil
  show ?case by (simp add: sort_fl_def)
next
  case (Cons x xs)
  have "sort_fl (map Fin (x # xs)) = insort_fl (Fin x) (sort_fl (map Fin xs))"
    by (simp add: sort_fl_def)
  with Cons show ?case by (simp add: insort_fl_Fin sort_key_simps)
qed

lemma no_nan_map_Fin: "list_ex (\<lambda>x. x = NaN) (map Fin xs) = False"
  by (induction xs) simp_all

lemma lerp_Fin: "lerp (Fin a) (Fin b) t = Fin (a + (b - a) * t)"
  by (simp add: lerp_def fl_sub_def Let_def algebra_simps)

lemma percentile_unfold:
  assumes "xs \<noteq> []"
  shows "percentile (map Fin xs) q =
           (if real (length xs - 1) \<le> real (length xs - 1) * (q / 100)
            then lerp (map Fin (sort xs) ! (length xs - 1)) (map Fin (sort xs) ! (length xs - 1))
                   (real (length xs - 1) * (q / 100) - (- 1))
            else lerp (map Fin (sort xs) ! nat \<lfloor>real (length xs - 1) * (q / 100)\<rfloor>)
                   (map Fin (sort xs) ! (nat \<lfloor>real (length xs - 1) * (q / 100)\<rfloor> + 1))
                   (real (length xs - 1) * (q / 100)
                      - of_int \<lfloor>real (length xs - 1) * (q / 100)\<rfloor>))"
proof -
  from assms have ne: "(map Fin xs = [] \<or> list_ex (\<lambda>x. x = NaN) (map Fin xs)) = False"
    by (simp add: no_nan_map_Fin)
  show ?thesis
    unfolding percentile_def Let_def ne sort_fl_Fin length_map
    by (cases "real (length xs - 1) \<le> real (length xs - 1) * (q / 100)") (simp_all only: if_True if_False)
qed

lemma percentile_Fin:
  assumes "xs \<noteq> []" and "0 \<le> q"
  shows "percentile (map Fin xs) q = Fin (linear_percentile xs q)"
proof -
  define n where "n = length xs"
  define s where "s = sort xs"
  define h where "h = real (n - 1) * (q / 100)"
  define k where "k = nat \<lfloor>h\<rfloor>"
  from assms have n: "0 < n" and h0: "0 \<le> h" by (simp_all add: n_def h_def)
  have len: "length s = n" by (simp add: s_def n_def)
  have kh: "real k = of_int \<lfloor>h\<rfloor>" using h0 by (simp add: k_def)
  have lhs: "percentile (map Fin xs) q =
               (if real (n - 1) \<le> h
                then lerp (map Fin s ! (n - 1)) (map Fin s ! (n - 1)) (h - (- 1))
                else lerp (map Fin s ! k) (map Fin s ! (k + 1)) (h - of_int \<lfloor>h\<rfloor>))"
    unfolding n_def s_def h_def k_def by (rule percentile_unfold [OF assms(1)])
  have rhs: "linear_percentile xs q =
               (if k + 1 < n then s ! k + (h - real k) * (s ! (k + 1) - s ! k) else s ! (n - 1))"
    unfolding linear_percentile_def Let_def n_def s_def h_def k_def by (rule refl)
  show ?thesis
  proof (cases "real (n - 1) \<le> h")
    case True
    then have "int (n - 1) \<le> \<lfloor>h\<rfloor>" by (simp add: le_floor_iff)
    then have "\<not> k + 1 < n" unfolding k_def by linarith
    moreover have "map Fin s ! (n - 1) = Fin (s ! (n - 1))" using n len by simp
    ultimately show ?thesis using True by (simp add: lhs rhs lerp_Fin)
  next
    case False
    then have "of_int \<lfloor>h\<rfloor> < real (n - 1)"
      by (meson not_le of_int_floor_le order_le_less_trans)
    then have "\<lfloor>h\<rfloor> < int (n - 1)" by linarith
    then have kn: "k + 1 < n" unfolding k_def using h0 by linarith
    then have "map Fin s ! k = Fin (s ! k)" "map Fin s ! (k + 1) = Fin (s ! (k + 1))"
      using len by simp_all
    then show ?thesis using False kn kh
      by (simp add: lhs rhs lerp_Fin algebra_simps)
  qed
qed

lemma linear_percentile_ge_least:
  assumes "xs \<noteq> []" and "0 \<le> q"
  shows "sort xs ! 0 \<le> linear_percentile xs q"
proof -
  define n where "n = length xs"
  define s where "s = sort xs"
  define h where "h = real (n - 1) * (q / 100)"
  define k where "k = nat \<lfloor>h\<rfloor>"
  from assms have n: "0 < n" and h0: "0 \<le> h" by (simp_all add: n_def h_def)
  have sorted: "sorted s" and len: "length s = n" by (simp_all add: s_def n_def)
  have rhs: "linear_percentile xs q =
               (if k + 1 < n then s ! k + (h - real k) * (s ! (k + 1) - s ! k) else s ! (n - 1))"
    unfolding linear_percentile_def Let_def n_def s_def h_def k_def by (rule refl)
  have "s ! 0 \<le> linear_percentile xs q"
  proof (cases "k + 1 < n")
    case True
    have "s ! 0 \<le> s ! k"
      by (rule sorted_nth_mono [OF sorted]) (use True len in simp_all)
    moreover have "s ! k \<le> s ! (k + 1)"
      by (rule sorted_nth_mono [OF sorted]) (use True len in simp_all)
    moreover have "real k \<le> h" using h0 by (simp add: k_def)
    then have "0 \<le> h - real k" by simp
    ultimately have "s ! 0 \<le> s ! k + (h - real k) * (s ! (k + 1) - s ! k)"
      by (smt (verit) mult_nonneg_nonneg)
    with True show ?thesis by (simp add: rhs)
  next
    case False
    have "s ! 0 \<le> s ! (n - 1)"
      by (rule sorted_nth_mono [OF sorted]) (use n len in simp_all)
    with False show ?thesis by (simp add: rhs)
  qed
  then show ?thesis by (simp add: s_def)
qed

lemma tail_nonempty:
  assumes "xs \<noteq> []" and "0 \<le> q"
  shows "filter (\<lambda>x. x \<le> linear_percentile xs q) xs \<noteq> []"
proof -
  from assms(1) have "sort xs ! 0 \<in> set (sort xs)" by (simp del: set_sort)
  then have "sort xs ! 0 \<in> set xs" by simp
  with linear_percentile_ge_least [OF assms] show ?thesis
    by (auto simp: filter_empty_conv)
qed

lemma filter_le_Fin:
  "filter (\<lambda>x. fl_le x (Fin v)) (map Fin xs) = map Fin (filter (\<lambda>x. x \<le> v) xs)"
  by (induction xs) simp_all

text \<open>
  Claim C7. For every series that is not empty, VaR (95%) is \<^verbatim>\<open>np.percentile\<close> of the
  raw series at 5, and CVaR (95%) is the mean of the values that are at most the VaR, or
  the VaR itself when there is none. When the series holds numbers, the VaR is the
  linear-interpolated 5th percentile of its values, some value is at most the VaR, and
  the CVaR is the mean of those values.
\<close>

theorem var_cvar_definition:
  assumes "portfolio_returns self = Inr (Some series)" and "series \<noteq> []"
  shows "\<exists>m. calculate_metrics self = Inr (Some m)
           \<and> var_95 m = percentile series 5
           \<and> cvar_95 m = (if filter (\<lambda>x. fl_le x (var_95 m)) series = [] then var_95 m
                           else nanmean (filter (\<lambda>x. fl_le x (var_95 m)) series))
           \<and> (\<forall>rs. series = map Fin rs \<longrightarrow>
                  var_95 m = Fin (linear_percentile rs 5)
                  \<and> filter (\<lambda>x. x \<le> linear_percentile rs 5) rs \<noteq> []
                  \<and> cvar_95 m = Fin (mean (filter (\<lambda>x. x \<le> linear_percentile rs 5) rs)))"
proof -
  let ?m = "metrics_of series"
  have run: "calculate_metrics self = Inr (Some ?m)"
    using assms by (simp add: calculate_metrics_def)
  have var: "var_95 ?m = percentile series 5"
    by (simp add: metrics_of_def Let_def)
  have cvar: "cvar_95 ?m = (if filter (\<lambda>x. fl_le x (var_95 ?m)) series = [] then var_95 ?m
                           else nanmean (filter (\<lambda>x. fl_le x (var_95 ?m)) series))"
    by (simp add: metrics_of_def Let_def)
  have fin: "var_95 ?m = Fin (linear_percentile rs 5)
             \<and> filter (\<lambda>x. x \<le> linear_percentile rs 5) rs \<noteq> []
             \<and> cvar_95 ?m = Fin (mean (filter (\<lambda>x. x \<le> linear_percentile rs 5) rs))"
    if rs: "series = map Fin rs" for rs
  proof -
    from rs assms(2) have ne: "rs \<noteq> []" by auto
    then have "percentile (map Fin rs) 5 = Fin (linear_percentile rs 5)"
      by (simp add: percentile_Fin)
    with var rs have v: "var_95 ?m = Fin (linear_percentile rs 5)"
      by simp
    have t: "filter (\<lambda>x. x \<le> linear_percentile rs 5) rs \<noteq> []"
      using ne by (simp add: tail_nonempty)
    have "filter (\<lambda>x. fl_le x (var_95 ?m)) series
            = map Fin (filter (\<lambda>x. x \<le> linear_percentile rs 5) rs)"
      unfolding v by (subst rs) (rule filter_le_Fin)
    with cvar t have "cvar_95 ?m = Fin (mean (filter (\<lambda>x. x \<le> linear_percentile rs 5) rs))"
      by (simp add: nanmean_Fin)
    with v t show ?thesis by simp
  qed
  from run var cvar fin show ?thesis by blast
qed

theorem var_cvar_definition_witness:
  "\<exists>m. calculate_metrics \<lparr>tickers = [''A''], weights = [1], data = None,
       returns = Some \<lparr>columns = [''A''],
                      rows = [[Fin (3/100)], [Fin (1/100)], [Fin (2/100)]]\<rparr>\<rparr> = Inr (Some m)
     \<and> var_95 m = Fin (11/1000) \<and> cvar_95 m = Fin (1/100)"
proof -
  let ?p = "\<lparr>tickers = [''A''], weights = [1], data = None,
       returns = Some \<lparr>columns = [''A''],
                      rows = [[Fin (3/100)], [Fin (1/100)], [Fin (2/100)]]\<rparr>\<rparr>"
  let ?rs = "[3/100, 1/100, 2/100] :: real list"
  have pr: "portfolio_returns ?p = Inr (Some (map Fin ?rs))"
    by (simp add: portfolio_returns_def frame_mul_def sum_axis1_def nansum_def skipna_def)
  have ne: "map Fin ?rs \<noteq> []" by simp
  from var_cvar_definition [OF pr ne] obtain m where m: "calculate_metrics ?p = Inr (Some m)"
    "\<forall>rs. map Fin ?rs = map Fin rs \<longrightarrow>
           var_95 m = Fin (linear_percentile rs 5)
           \<and> filter (\<lambda>x. x \<le> linear_percentile rs 5) rs \<noteq> []
           \<and> cvar_95 m = Fin (mean (filter (\<lambda>x. x \<le> linear_percentile rs 5) rs))"
    by blast
  have lp: "linear_percentile ?rs 5 = 11/1000"
    by (simp add: linear_percentile_def Let_def)
  from m(2) have "var_95 m = Fin (linear_percentile ?rs 5)"
    "cvar_95 m = Fin (mean (filter (\<lambda>x. x \<le> linear_percentile ?rs 5) ?rs))"
    by blast+
  then have "var_95 m = Fin (11/1000)" "cvar_95 m = Fin (1/100)"
    unfolding lp by (simp_all add: mean_def)
  with m(1) show ?thesis by blast
qed

section \<open>The metrics engine: drawdown\<close>

text \<open>On numbers, the curves of the engine are the curves on the reals.\<close>

lemma cumprod_from_Fin: "cumprod_from (Fin a) (map Fin xs) = map Fin (cumprod_real a xs)"
  by (induction xs arbitrary: a) simp_all

lemma fl_max_Fin: "fl_max (Fin a) (Fin b) = Fin (max a b)"
  by (simp add: fl_max_def max_def)

lemma fl_min_Fin: "fl_min (Fin a) (Fin b) = Fin (min a b)"
  by (simp add: fl_min_def min_def)

lemma expanding_max_from_Fin:
  "expanding_max_from (Some (Fin m)) (map Fin xs) = map Fin (running_max m xs)"
  by (induction xs arbitrary: m) (simp_all add: fl_max_Fin Let_def)

lemma expanding_max_Fin:
  "expanding_max (map Fin (x # xs)) = map Fin (running_max x (x # xs))"
  by (simp add: expanding_max_def expanding_max_from_Fin Let_def)

lemma length_cumprod_real [simp]: "length (cumprod_real a xs) = length xs"
  by (induction xs arbitrary: a) simp_all

lemma length_running_max [simp]: "length (running_max m xs) = length xs"
  by (induction xs arbitrary: m) simp_all

lemma cumprod_real_pos:
  assumes "0 < a" and "\<forall>x\<in>set xs. 0 < x"
  shows "\<forall>c\<in>set (cumprod_real a xs). 0 < c"
  using assms by (induction xs arbitrary: a) (auto intro: mult_pos_pos)

lemma running_max_bounds:
  assumes "0 < m" and "(c, mx) \<in> set (zip cs (running_max m cs))"
  shows "c \<le> mx \<and> 0 < mx"
  using assms
proof (induction cs arbitrary: m)
  case Nil
  then show ?case by simp
next
  case (Cons x xs)
  from Cons.prems(2) consider "c = x" "mx = max m x"
    | "(c, mx) \<in> set (zip xs (running_max (max m x) xs))"
    by auto
  then show ?case
  proof cases
    case 1
    with Cons.prems(1) show ?thesis by auto
  next
    case 2
    moreover from Cons.prems(1) have "0 < max m x" by auto
    ultimately show ?thesis by (rule Cons.IH [rotated])
  qed
qed

lemma running_max_fixed_sorted:
  assumes "\<forall>(c, mx)\<in>set (zip cs (running_max m cs)). c = mx"
  shows "sorted cs \<and> (\<forall>c\<in>set cs. m \<le> c)"
  using assms
proof (induction cs arbitrary: m)
  case Nil
  then show ?case by simp
next
  case (Cons x xs)
  from Cons.prems have x: "x = max m x"
    and rest: "\<forall>(c, mx)\<in>set (zip xs (running_max (max m x) xs)). c = mx"
    by simp_all
  from Cons.IH [OF rest] have "sorted xs" and ge: "\<forall>c\<in>set xs. max m x \<le> c"
    by simp_all
  with x show ?case by auto
qed

lemma map2_drawdown_Fin:
  assumes "\<forall>mx\<in>set ms. mx \<noteq> 0"
  shows "map2 (\<lambda>c m. fl_div (fl_sub c m) m) (map Fin cs) (map Fin ms)
           = map Fin (map2 (\<lambda>c mx. (c - mx) / mx) cs ms)"
  using assms
proof (induction cs arbitrary: ms)
  case Nil
  show ?case by simp
next
  case (Cons c cs)
  then show ?case by (cases ms) (simp_all add: fl_sub_def)
qed

lemma foldl_fl_min_Fin: "foldl fl_min (Fin y) (map Fin ys) = Fin (foldl min y ys)"
  by (induction ys arbitrary: y) (simp_all add: fl_min_Fin)

lemma foldl_min_Min: "foldl min y ys = Min (set (y # ys))"
proof (induction ys arbitrary: y)
  case Nil
  show ?case by simp
next
  case (Cons z zs)
  have "Min (set (y # z # zs)) = Min (set (min y z # zs))"
    by (cases "zs = []") (simp_all add: min.assoc)
  with Cons show ?case by simp
qed

lemma nanmin_Fin:
  assumes "ds \<noteq> []"
  shows "nanmin (map Fin ds) = Fin (Min (set ds))"
proof -
  from assms obtain y ys where ds: "ds = y # ys" by (cases ds) auto
  have "nanmin (map Fin ds) = foldl fl_min (Fin y) (map Fin ys)"
    unfolding nanmin_def skipna_map_Fin by (simp add: ds)
  then show ?thesis by (simp add: foldl_fl_min_Fin foldl_min_Min ds del: foldl_Cons)
qed


lemma cumulative_of_series:
  "cumprod (map (fl_add (Fin 1)) (map Fin rs)) = map Fin (cumprod_real 1 (map (\<lambda>r. 1 + r) rs))"
proof -
  have "map (fl_add (Fin 1)) (map Fin rs) = map Fin (map (\<lambda>r. 1 + r) rs)" by simp
  then show ?thesis by (simp only: cumprod_def cumprod_from_Fin)
qed

lemma growth_pos:
  assumes "\<forall>r\<in>set rs. - 1 < r"
  shows "\<forall>c\<in>set (cumprod_real 1 (map (\<lambda>r. 1 + r) rs)). 0 < c"
  by (rule cumprod_real_pos) (use assms in auto)

lemma drawdown_real_bounds:
  assumes "\<forall>c\<in>set cs. 0 < c" and "(c, mx) \<in> set (zip cs (running_max (hd cs) cs))"
  shows "c \<le> mx \<and> 0 < mx"
proof -
  from assms(2) have "cs \<noteq> []" by auto
  with assms(1) have "0 < hd cs" by simp
  then show ?thesis using assms(2) by (rule running_max_bounds)
qed

lemma drawdown_real_nonpos:
  assumes "\<forall>c\<in>set cs. 0 < c" and "d \<in> set (drawdown_real cs)"
  shows "d \<le> 0"
proof -
  from assms(2) obtain c mx where in_zip: "(c, mx) \<in> set (zip cs (running_max (hd cs) cs))"
    and d: "d = (c - mx) / mx"
    by (auto simp: drawdown_real_def)
  from drawdown_real_bounds [OF assms(1) in_zip] have "c \<le> mx" "0 < mx" by simp_all
  then show ?thesis unfolding d by (simp add: divide_nonpos_pos)
qed

lemma drawdown_real_zero_sorted:
  assumes pos: "\<forall>c\<in>set cs. 0 < c" and zero: "\<forall>d\<in>set (drawdown_real cs). d = 0"
  shows "sorted cs"
proof -
  have "c = mx" if in_zip: "(c, mx) \<in> set (zip cs (running_max (hd cs) cs))" for c mx
  proof -
    from in_zip have "(c - mx) / mx \<in> set (drawdown_real cs)"
      by (force simp: drawdown_real_def)
    with zero have "(c - mx) / mx = 0" by blast
    moreover from drawdown_real_bounds [OF pos in_zip] have "0 < mx" by simp
    ultimately show ?thesis by simp
  qed
  then have "\<forall>(c, mx)\<in>set (zip cs (running_max (hd cs) cs)). c = mx" by auto
  then show ?thesis using running_max_fixed_sorted by blast
qed

lemma drawdown_of_series:
  assumes "rs \<noteq> []" and "\<forall>r\<in>set rs. - 1 < r"
  shows "cumulative_returns (metrics_of (map Fin rs)) = map Fin (cumprod_real 1 (map (\<lambda>r. 1 + r) rs))"
    and "drawdown_series (metrics_of (map Fin rs))
           = map Fin (drawdown_real (cumprod_real 1 (map (\<lambda>r. 1 + r) rs)))"
    and "maximum_drawdown (metrics_of (map Fin rs))
           = Fin (Min (set (drawdown_real (cumprod_real 1 (map (\<lambda>r. 1 + r) rs)))))"
proof -
  define cs where "cs = cumprod_real 1 (map (\<lambda>r. 1 + r) rs)"
  have cum: "cumprod (map (fl_add (Fin 1)) (map Fin rs)) = map Fin cs"
    unfolding cs_def by (rule cumulative_of_series)
  have pos: "\<forall>c\<in>set cs. 0 < c"
    unfolding cs_def using assms(2) by (rule growth_pos)
  from assms(1) have "length cs \<noteq> 0" by (simp add: cs_def)
  then obtain c0 cs' where cs: "cs = c0 # cs'" by (cases cs) auto
  have rmax: "expanding_max (map Fin cs) = map Fin (running_max (hd cs) cs)"
    unfolding cs by (simp only: expanding_max_Fin list.sel)
  have "\<forall>mx\<in>set (running_max (hd cs) cs). mx \<noteq> 0"
  proof
    fix mx assume "mx \<in> set (running_max (hd cs) cs)"
    then obtain c where "(c, mx) \<in> set (zip cs (running_max (hd cs) cs))"
      by (metis in_set_impl_in_set_zip2 length_running_max)
    from drawdown_real_bounds [OF pos this] show "mx \<noteq> 0" by simp
  qed
  then have dd: "map2 (\<lambda>c m. fl_div (fl_sub c m) m) (map Fin cs) (map Fin (running_max (hd cs) cs))
                   = map Fin (drawdown_real cs)"
    unfolding drawdown_real_def by (rule map2_drawdown_Fin)
  have ne: "drawdown_real cs \<noteq> []"
    by (simp add: drawdown_real_def cs)
  show "cumulative_returns (metrics_of (map Fin rs)) = map Fin (cumprod_real 1 (map (\<lambda>r. 1 + r) rs))"
    using cum by (simp add: metrics_of_def Let_def cs_def)
  show "drawdown_series (metrics_of (map Fin rs))
           = map Fin (drawdown_real (cumprod_real 1 (map (\<lambda>r. 1 + r) rs)))"
    using cum rmax dd by (simp add: metrics_of_def Let_def cs_def del: map_map)
  show "maximum_drawdown (metrics_of (map Fin rs))
           = Fin (Min (set (drawdown_real (cumprod_real 1 (map (\<lambda>r. 1 + r) rs)))))"
    using cum rmax dd nanmin_Fin [OF ne] by (simp add: metrics_of_def Let_def cs_def del: map_map)
qed

lemma series_drawdown_properties:
  assumes "rs \<noteq> []" and "\<forall>r\<in>set rs. - 1 < r"
  shows "list_all (\<lambda>d. fl_le d (Fin 0)) (drawdown_series (metrics_of (map Fin rs)))"
    and "fl_le (maximum_drawdown (metrics_of (map Fin rs))) (Fin 0)"
    and "maximum_drawdown (metrics_of (map Fin rs)) = Fin 0 \<Longrightarrow>
           sorted (map fl_val (cumulative_returns (metrics_of (map Fin rs))))"
proof -
  define cs where "cs = cumprod_real 1 (map (\<lambda>r. 1 + r) rs)"
  note facts = drawdown_of_series [OF assms, folded cs_def]
  have pos: "\<forall>c\<in>set cs. 0 < c"
    unfolding cs_def using assms(2) by (rule growth_pos)
  have nonpos: "\<forall>d\<in>set (drawdown_real cs). d \<le> 0"
    using drawdown_real_nonpos [OF pos] by blast
  have ne: "drawdown_real cs \<noteq> []"
    using assms(1) by (cases rs) (simp_all add: drawdown_real_def cs_def)
  show "list_all (\<lambda>d. fl_le d (Fin 0)) (drawdown_series (metrics_of (map Fin rs)))"
    using nonpos by (simp add: facts list_all_iff)
  have "Min (set (drawdown_real cs)) \<in> set (drawdown_real cs)"
    using ne by (intro Min_in) simp_all
  with nonpos have min_le: "Min (set (drawdown_real cs)) \<le> 0" by blast
  then show "fl_le (maximum_drawdown (metrics_of (map Fin rs))) (Fin 0)"
    by (simp add: facts)
  assume "maximum_drawdown (metrics_of (map Fin rs)) = Fin 0"
  then have "Min (set (drawdown_real cs)) = 0" by (simp add: facts)
  then have "\<forall>d\<in>set (drawdown_real cs). 0 \<le> d"
    using Min_le [of "set (drawdown_real cs)"] by (metis List.finite_set)
  with nonpos have "\<forall>d\<in>set (drawdown_real cs). d = 0" by force
  with pos have "sorted cs" by (rule drawdown_real_zero_sorted)
  then show "sorted (map fl_val (cumulative_returns (metrics_of (map Fin rs))))"
    by (simp add: facts comp_def)
qed

text \<open>A weighted sum of returns above -1, with valid weights, is above -1.\<close>

lemma shifted_sum_nonneg:
  fixes xs ws :: "real list"
  assumes "length xs = length ws" and "\<forall>x\<in>set xs. - 1 < x" and "\<forall>w\<in>set ws. 0 \<le> w"
  shows "0 \<le> sum_list (map2 (\<lambda>x w. (x + 1) * w) xs ws)"
  using assms
proof (induction xs ws rule: list_induct2)
  case Nil
  show ?case by simp
next
  case (Cons x xs w ws)
  from Cons.prems have "0 \<le> x + 1" and "0 \<le> w" by simp_all
  then have "0 \<le> (x + 1) * w" by (rule mult_nonneg_nonneg)
  moreover from Cons have "0 \<le> sum_list (map2 (\<lambda>x w. (x + 1) * w) xs ws)" by simp
  ultimately show ?case by simp
qed

lemma shifted_sum_pos:
  fixes xs ws :: "real list"
  assumes "length xs = length ws" and "\<forall>x\<in>set xs. - 1 < x" and "\<forall>w\<in>set ws. 0 \<le> w"
    and "0 < sum_list ws"
  shows "0 < sum_list (map2 (\<lambda>x w. (x + 1) * w) xs ws)"
  using assms
proof (induction xs ws rule: list_induct2)
  case Nil
  then show ?case by simp
next
  case (Cons x xs w ws)
  from Cons.prems have "- 1 < x" and w: "0 \<le> w" by simp_all
  then have x: "0 < x + 1" by linarith
  from Cons.prems Cons.hyps have rest: "0 \<le> sum_list (map2 (\<lambda>x w. (x + 1) * w) xs ws)"
    by (intro shifted_sum_nonneg) simp_all
  show ?case
  proof (cases "0 < w")
    case True
    with x have "0 < (x + 1) * w" by simp
    with rest show ?thesis by simp
  next
    case False
    with w have w0: "w = 0" by simp
    with Cons.prems have "0 < sum_list ws" by simp
    with Cons.IH Cons.prems have "0 < sum_list (map2 (\<lambda>x w. (x + 1) * w) xs ws)" by simp
    with w0 show ?thesis by simp
  qed
qed

lemma shifted_sum_split:
  fixes xs ws :: "real list"
  shows "length xs = length ws \<Longrightarrow>
     sum_list (map2 (\<lambda>x w. (x + 1) * w) xs ws) = sum_list (map2 (\<lambda>x w. x * w) xs ws) + sum_list ws"
proof (induction xs ws rule: list_induct2)
  case Nil
  show ?case by simp
next
  case (Cons x xs w ws)
  have "(x + 1) * w = x * w + w" by (simp add: distrib_right)
  with Cons show ?case by simp
qed

lemma weighted_sum_above_minus_one:
  assumes "valid_weights w" and "length xs = length w" and "\<forall>x\<in>set xs. - 1 < x"
  shows "- 1 < weighted_sum w xs"
proof -
  from assms(1) have nn: "\<forall>a\<in>set w. 0 \<le> a" and one: "sum_list w = 1"
    by (simp_all add: valid_weights_def list_all_iff)
  from shifted_sum_pos [OF assms(2,3) nn] one
  have "0 < sum_list (map2 (\<lambda>x w. (x + 1) * w) xs w)" by simp
  with shifted_sum_split [OF assms(2)] one
  have "- 1 < sum_list (map2 (\<lambda>x w. x * w) xs w)" by simp
  with assms(2) show ?thesis by (simp add: sum_list_map2_weighted)
qed

text \<open>The drawdown properties, from the return table and the weights that the engine reads.\<close>

lemma metrics_drawdown_nonpositive:
  assumes "returns self = Some r" and "wf_frame r" and "rows r \<noteq> []"
    and "returns_above_minus_one r"
    and "length (weights self) = length (columns r)" and "valid_weights (weights self)"
  shows "\<exists>m. calculate_metrics self = Inr (Some m)
           \<and> length (drawdown_series m) = length (rows r)
           \<and> list_all (\<lambda>d. fl_le d (Fin 0)) (drawdown_series m)
           \<and> fl_le (maximum_drawdown m) (Fin 0)
           \<and> (maximum_drawdown m = Fin 0 \<longrightarrow> sorted (map fl_val (cumulative_returns m)))"
proof -
  let ?w = "weights self"
  define rs where "rs = map (\<lambda>row. weighted_sum ?w (map fl_val row)) (rows r)"
  from assms(4) have fin: "finite_frame r"
    by (auto simp: returns_above_minus_one_def finite_frame_def list_all_iff)
  have series: "portfolio_returns self = Inr (Some (map Fin rs))"
    unfolding rs_def using assms(1,2) fin assms(5) by (rule portfolio_returns_series)
  from assms(3) have ne: "rs \<noteq> []" by (simp add: rs_def)
  have above: "\<forall>x\<in>set rs. - 1 < x"
  proof
    fix x assume "x \<in> set rs"
    then obtain row where row: "row \<in> set (rows r)" and x: "x = weighted_sum ?w (map fl_val row)"
      by (auto simp: rs_def)
    from row assms(2,5) have "length (map fl_val row) = length ?w"
      by (simp add: wf_frame_def list_all_iff)
    moreover from row assms(4) have "\<forall>v\<in>set (map fl_val row). - 1 < v"
      by (auto simp: returns_above_minus_one_def list_all_iff)
    ultimately show "- 1 < x"
      unfolding x using assms(6) by (intro weighted_sum_above_minus_one)
  qed
  let ?m = "metrics_of (map Fin rs)"
  from series ne have run: "calculate_metrics self = Inr (Some ?m)"
    by (simp add: calculate_metrics_def)
  have "length (drawdown_series ?m) = length rs"
    unfolding drawdown_of_series(2) [OF ne above] by (simp add: drawdown_real_def)
  then have "length (drawdown_series ?m) = length (rows r)"
    by (simp add: rs_def)
  with run series_drawdown_properties [OF ne above] show ?thesis by blast
qed

text \<open>
  Claim C4. For a price table of positive prices with at least two rows (so that the
  portfolio return series is not empty) and valid weights, every value of the drawdown
  curve is at most 0, hence so is the maximum drawdown, the minimum of the curve; and
  when the maximum drawdown is 0 the cumulative return curve never decreases.
\<close>

theorem drawdown_nonpositive:
  assumes "data self = Some d" and "wf_frame d" and "columns d \<noteq> []" and "positive_prices d"
    and "2 \<le> length (rows d)"
    and "length (weights self) = length (columns d)" and "valid_weights (weights self)"
  shows "\<exists>m. calculate_metrics (self\<lparr>returns := calculate_returns self\<rparr>) = Inr (Some m)
           \<and> length (drawdown_series m) = length (rows d) - 1
           \<and> list_all (\<lambda>x. fl_le x (Fin 0)) (drawdown_series m)
           \<and> fl_le (maximum_drawdown m) (Fin 0)
           \<and> (maximum_drawdown m = Fin 0 \<longrightarrow> sorted (map fl_val (cumulative_returns m)))"
proof -
  from returns_of_positive_prices [OF assms(1-4)] obtain r
    where r: "calculate_returns self = Some r" "columns r = columns d" "wf_frame r"
      "returns_above_minus_one r" "length (rows r) = length (rows d) - 1"
    by blast
  let ?p = "self\<lparr>returns := calculate_returns self\<rparr>"
  from r(5) assms(5) have "rows r \<noteq> []" by auto
  moreover have "returns ?p = Some r" using r(1) by simp
  moreover have "length (weights ?p) = length (columns r)" using r(2) assms(6) by simp
  moreover have "valid_weights (weights ?p)" using assms(7) by simp
  ultimately have "\<exists>m. calculate_metrics ?p = Inr (Some m)
           \<and> length (drawdown_series m) = length (rows r)
           \<and> list_all (\<lambda>d. fl_le d (Fin 0)) (drawdown_series m)
           \<and> fl_le (maximum_drawdown m) (Fin 0)
           \<and> (maximum_drawdown m = Fin 0 \<longrightarrow> sorted (map fl_val (cumulative_returns m)))"
    using r(3,4) by (intro metrics_drawdown_nonpositive)
  with r(5) show ?thesis by simp
qed

text \<open>
  The specification's example: prices [100, 110, 99] with weight 1 give the drawdown
  curve [0.0, -0.10] and the maximum drawdown -0.10.
\<close>

theorem drawdown_nonpositive_witness:
  "\<exists>m. calculate_metrics
          (\<lparr>tickers = [''A''], weights = [1],
            data = Some \<lparr>columns = [''A''], rows = [[100], [110], [99]]\<rparr>,
            returns = None\<rparr>
           \<lparr>returns := calculate_returns
              \<lparr>tickers = [''A''], weights = [1],
               data = Some \<lparr>columns = [''A''], rows = [[100], [110], [99]]\<rparr>,
               returns = None\<rparr>\<rparr>) = Inr (Some m)
     \<and> drawdown_series m = [Fin 0, Fin (- (1/10))]
     \<and> maximum_drawdown m = Fin (- (1/10))
     \<and> list_all (\<lambda>x. fl_le x (Fin 0)) (drawdown_series m)
     \<and> fl_le (maximum_drawdown m) (Fin 0)"
proof -
  let ?d = "\<lparr>columns = [''A''], rows = [[100], [110], [99]]\<rparr> :: real frame"
  let ?self = "\<lparr>tickers = [''A''], weights = [1], data = Some ?d, returns = None\<rparr>"
  let ?p = "?self\<lparr>returns := calculate_returns ?self\<rparr>"
  have "\<exists>m. calculate_metrics ?p = Inr (Some m)
           \<and> length (drawdown_series m) = length (rows ?d) - 1
           \<and> list_all (\<lambda>x. fl_le x (Fin 0)) (drawdown_series m)
           \<and> fl_le (maximum_drawdown m) (Fin 0)
           \<and> (maximum_drawdown m = Fin 0 \<longrightarrow> sorted (map fl_val (cumulative_returns m)))"
    by (rule drawdown_nonpositive)
       (simp_all add: wf_frame_def positive_prices_def valid_weights_def)
  then obtain m where m: "calculate_metrics ?p = Inr (Some m)"
    "list_all (\<lambda>x. fl_le x (Fin 0)) (drawdown_series m)" "fl_le (maximum_drawdown m) (Fin 0)"
    by blast
  have "calculate_returns ?self = Some \<lparr>columns = [''A''], rows = [[Fin (1/10)], [Fin (- (1/10))]]\<rparr>"
    by (simp add: calculate_returns_def dropna_def pct_change_def pct_change_row_def fl_sub_def)
  then have "portfolio_returns ?p = Inr (Some [Fin (1/10), Fin (- (1/10))])"
    by (simp add: portfolio_returns_def frame_mul_def sum_axis1_def nansum_def skipna_def)
  then have "calculate_metrics ?p = Inr (Some (metrics_of [Fin (1/10), Fin (- (1/10))]))"
    by (simp add: calculate_metrics_def)
  with m(1) have eq: "m = metrics_of [Fin (1/10), Fin (- (1/10))]" by simp
  have "drawdown_series m = [Fin 0, Fin (- (1/10))]"
    unfolding eq
    by (simp add: metrics_of_def Let_def cumprod_def expanding_max_def fl_max_def fl_sub_def)
  moreover have "maximum_drawdown m = Fin (- (1/10))"
    unfolding eq
    by (simp add: metrics_of_def Let_def cumprod_def expanding_max_def fl_max_def fl_sub_def
          nanmin_def skipna_def fl_min_def)
  ultimately show ?thesis using m by blast
qed

text \<open>
  The bound on the returns matters: a return below -1 turns the cumulative curve
  negative, and the drawdown curve of the series [-2, 1] is [0, 1].
\<close>

lemma drawdown_of_returns_below_minus_one:
  "drawdown_series (metrics_of [Fin (- 2), Fin 1]) = [Fin 0, Fin 1]"
  by (simp add: metrics_of_def Let_def cumprod_def expanding_max_def fl_max_def fl_sub_def)

section \<open>The risk attribution engine\<close>

lemma map2_compose: "map2 (\<lambda>a b. g (h a b)) xs ys = map g (map2 h xs ys)"
  by (simp add: case_prod_unfold)

lemma sum_list_divide_const:
  fixes ys :: "real list"
  shows "sum_list (map (\<lambda>y. y / v) ys) = sum_list ys / v"
  by (induction ys) (simp_all add: add_divide_distrib)

lemma sum_list_times_const:
  fixes ys :: "real list"
  shows "sum_list (map (\<lambda>y. y * c) ys) = sum_list ys * c"
  by (induction ys) (simp_all add: distrib_right)

text \<open>How the portfolio variance decides the result of \<^verbatim>\<open>risk_attribution\<close>.\<close>

lemma risk_attribution_by_variance:
  assumes "portfolio_variance self = Some pv"
  shows "\<exists>r cw. returns self = Some r
          \<and> length cw = length (weights self)
          \<and> pv = fl_sum (map2 fl_mul (map Fin (weights self)) cw)
          \<and> risk_attribution self =
              (if fl_le pv (Fin 0) then Inr None
               else if length (tickers self) \<noteq> length (weights self) then Inl ValueError
               else Inr (Some
                 \<lparr>asset = tickers self,
                  weight = map Fin (weights self),
                  risk_contribution = map2 (\<lambda>wa ma. fl_div (fl_mul wa ma) pv) (map Fin (weights self)) cw,
                  risk_contribution_pct =
                    map (\<lambda>c. fl_mul (fl_div c (fl_sum (map2 (\<lambda>wa ma. fl_div (fl_mul wa ma) pv)
                                                         (map Fin (weights self)) cw))) (Fin 100))
                      (map2 (\<lambda>wa ma. fl_div (fl_mul wa ma) pv) (map Fin (weights self)) cw)\<rparr>))"
proof -
  from assms obtain r where r: "returns self = Some r"
    by (cases "returns self") (simp_all add: portfolio_variance_def)
  let ?w = "map Fin (weights self)"
  let ?c = "map (map (\<lambda>c. fl_mul c (Fin 252))) (cov r)"
  from assms r obtain cw where cw: "mat_dot (length (columns r)) ?c ?w = Inr cw"
    by (cases "mat_dot (length (columns r)) ?c ?w") (simp_all add: portfolio_variance_def Let_def)
  from assms r cw have d: "dot ?w cw = Inr pv"
    by (cases "dot ?w cw") (simp_all add: portfolio_variance_def Let_def)
  from cw have len: "length cw = length (weights self)"
    by (auto simp: mat_dot_def cov_def Let_def split: if_splits)
  from d have pv: "pv = fl_sum (map2 fl_mul ?w cw)"
    by (auto simp: dot_def split: if_splits)
  from r cw d have "risk_attribution self =
              (if fl_le pv (Fin 0) then Inr None
               else if length (tickers self) \<noteq> length (weights self) then Inl ValueError
               else Inr (Some
                 \<lparr>asset = tickers self,
                  weight = ?w,
                  risk_contribution = map2 (\<lambda>wa ma. fl_div (fl_mul wa ma) pv) ?w cw,
                  risk_contribution_pct =
                    map (\<lambda>c. fl_mul (fl_div c (fl_sum (map2 (\<lambda>wa ma. fl_div (fl_mul wa ma) pv) ?w cw))) (Fin 100))
                      (map2 (\<lambda>wa ma. fl_div (fl_mul wa ma) pv) ?w cw)\<rparr>))"
    by (simp add: risk_attribution_def Let_def)
  with r len pv show ?thesis by blast
qed

text \<open>
  Claim C5. When the portfolio variance is at most 0, \<^verbatim>\<open>risk_attribution\<close> returns
  \<^verbatim>\<open>None\<close>: it raises nothing, divides by nothing and builds no table. In the analysis
  run the metrics bundle computed before it is shown as it is, with no attribution
  after it.
\<close>

theorem degenerate_variance_no_attribution:
  assumes "portfolio_variance self = Some pv" and "fl_le pv (Fin 0)"
  shows "risk_attribution self = Inr None
         \<and> (\<forall>p d m. self = p\<lparr>data := Some d, returns := calculate_returns (p\<lparr>data := Some d\<rparr>)\<rparr>
                      \<and> calculate_metrics self = Inr (Some m)
                \<longrightarrow> analyze p (Some d) = [Show_metrics m])"
proof -
  from risk_attribution_by_variance [OF assms(1)] assms(2)
  have none: "risk_attribution self = Inr None" by auto
  have "analyze p (Some d) = [Show_metrics m]"
    if "self = p\<lparr>data := Some d, returns := calculate_returns (p\<lparr>data := Some d\<rparr>)\<rparr>"
      and "calculate_metrics self = Inr (Some m)" for p d m
    using that none by (simp add: analyze_def Let_def calculate_returns_def)
  with none show ?thesis by blast
qed

text \<open>Constant prices: every return is 0, the variance is 0, the metrics are shown alone.\<close>

theorem degenerate_variance_no_attribution_witness:
  "risk_attribution
     \<lparr>tickers = [''A''], weights = [1],
      data = Some \<lparr>columns = [''A''], rows = [[100], [100], [100]]\<rparr>,
      returns = Some \<lparr>columns = [''A''], rows = [[Fin 0], [Fin 0]]\<rparr>\<rparr> = Inr None
   \<and> analyze \<lparr>tickers = [''A''], weights = [1], data = None, returns = None\<rparr>
       (Some \<lparr>columns = [''A''], rows = [[100], [100], [100]]\<rparr>)
     = [Show_metrics (metrics_of [Fin 0, Fin 0])]"
proof -
  let ?d = "\<lparr>columns = [''A''], rows = [[100], [100], [100]]\<rparr> :: real frame"
  let ?r = "\<lparr>columns = [''A''], rows = [[Fin 0], [Fin 0]]\<rparr> :: fl frame"
  let ?p = "\<lparr>tickers = [''A''], weights = [1], data = None, returns = None\<rparr>"
  let ?self = "\<lparr>tickers = [''A''], weights = [1], data = Some ?d, returns = Some ?r\<rparr>"
  have pv: "portfolio_variance ?self = Some (Fin 0)"
    by (simp add: portfolio_variance_def cov_def cov_pair_def column_def mat_dot_def dot_def
          fl_sum_def fl_sub_def Let_def)
  have le: "fl_le (Fin 0) (Fin 0)" by simp
  have ret: "calculate_returns (?p\<lparr>data := Some ?d\<rparr>) = Some ?r"
    by (simp add: calculate_returns_def dropna_def pct_change_def pct_change_row_def fl_sub_def)
  then have self: "?self = ?p\<lparr>data := Some ?d, returns := calculate_returns (?p\<lparr>data := Some ?d\<rparr>)\<rparr>"
    by simp
  have "portfolio_returns ?self = Inr (Some [Fin 0, Fin 0])"
    by (simp add: portfolio_returns_def frame_mul_def sum_axis1_def nansum_def skipna_def)
  then have met: "calculate_metrics ?self = Inr (Some (metrics_of [Fin 0, Fin 0]))"
    by (simp add: calculate_metrics_def)
  from degenerate_variance_no_attribution [OF pv le]
  have none: "risk_attribution ?self = Inr None"
    and run: "\<forall>p d m. ?self = p\<lparr>data := Some d, returns := calculate_returns (p\<lparr>data := Some d\<rparr>)\<rparr>
                      \<and> calculate_metrics ?self = Inr (Some m)
                \<longrightarrow> analyze p (Some d) = [Show_metrics m]"
    by blast+
  from run self met have "analyze ?p (Some ?d) = [Show_metrics (metrics_of [Fin 0, Fin 0])]"
    by blast
  with none show ?thesis by blast
qed

text \<open>
  Claim C6. When the portfolio variance is a positive number and there is one ticker per
  weight, \<^verbatim>\<open>risk_attribution\<close> returns a table whose assets and weights are the tickers
  and the weights in their input order, with one risk contribution and one percentage
  per ticker; the risk contributions sum to 1; each percentage is the contribution over
  the sum of the contributions, times 100; and the percentages sum to 100.
\<close>

theorem attribution_percentages_sum_to_100:
  assumes "portfolio_variance self = Some (Fin v)" and "0 < v"
    and "length (tickers self) = length (weights self)"
  shows "\<exists>a. risk_attribution self = Inr (Some a)
           \<and> asset a = tickers self
           \<and> weight a = map Fin (weights self)
           \<and> length (risk_contribution a) = length (tickers self)
           \<and> length (risk_contribution_pct a) = length (tickers self)
           \<and> fl_sum (risk_contribution a) = Fin 1
           \<and> risk_contribution_pct a
               = map (\<lambda>c. fl_mul (fl_div c (fl_sum (risk_contribution a))) (Fin 100)) (risk_contribution a)
           \<and> fl_sum (risk_contribution_pct a) = Fin 100"
proof -
  let ?w = "map Fin (weights self)"
  from risk_attribution_by_variance [OF assms(1)] obtain r cw
    where len: "length cw = length (weights self)"
      and pv: "Fin v = fl_sum (map2 fl_mul ?w cw)"
      and ra: "risk_attribution self =
              (if fl_le (Fin v) (Fin 0) then Inr None
               else if length (tickers self) \<noteq> length (weights self) then Inl ValueError
               else Inr (Some
                 \<lparr>asset = tickers self,
                  weight = ?w,
                  risk_contribution = map2 (\<lambda>wa ma. fl_div (fl_mul wa ma) (Fin v)) ?w cw,
                  risk_contribution_pct =
                    map (\<lambda>c. fl_mul (fl_div c (fl_sum (map2 (\<lambda>wa ma. fl_div (fl_mul wa ma) (Fin v)) ?w cw))) (Fin 100))
                      (map2 (\<lambda>wa ma. fl_div (fl_mul wa ma) (Fin v)) ?w cw)\<rparr>))"
    by blast
  let ?rc = "map2 (\<lambda>wa ma. fl_div (fl_mul wa ma) (Fin v)) ?w cw"
  let ?pct = "map (\<lambda>c. fl_mul (fl_div c (fl_sum ?rc)) (Fin 100)) ?rc"
  from pv obtain ys where ys: "map2 fl_mul ?w cw = map Fin ys" and sum: "sum_list ys = v"
    using fl_sum_Fin_imp by metis
  have "?rc = map (\<lambda>p. fl_div p (Fin v)) (map2 fl_mul ?w cw)"
    by (rule map2_compose)
  also have "\<dots> = map Fin (map (\<lambda>y. y / v) ys)"
    unfolding ys using assms(2) by simp
  finally have rc: "?rc = map Fin (map (\<lambda>y. y / v) ys)" .
  have "sum_list (map (\<lambda>y. y / v) ys) = 1"
    using assms(2) sum by (simp add: sum_list_divide_const)
  then have rc_sum: "fl_sum ?rc = Fin 1"
    unfolding rc by (simp only: fl_sum_map_Fin)
  have "?pct = map Fin (map (\<lambda>y. y / v * 100) ys)"
    unfolding rc_sum unfolding rc by simp
  moreover have "sum_list (map (\<lambda>y. y / v * 100) ys) = 100"
    using assms(2) sum sum_list_times_const [of 100 "map (\<lambda>y. y / v) ys"]
    by (simp add: sum_list_divide_const comp_def)
  ultimately have pct_sum: "fl_sum ?pct = Fin 100"
    by (simp only: fl_sum_map_Fin)
  have rc_len: "length ?rc = length (tickers self)"
    using len assms(3) by simp
  let ?a = "\<lparr>asset = tickers self, weight = ?w, risk_contribution = ?rc, risk_contribution_pct = ?pct\<rparr>"
  from ra assms(2,3) have "risk_attribution self = Inr (Some ?a)" by simp
  moreover have "asset ?a = tickers self" "weight ?a = ?w"
    "length (risk_contribution ?a) = length (tickers self)"
    "length (risk_contribution_pct ?a) = length (tickers self)"
    "fl_sum (risk_contribution ?a) = Fin 1"
    "risk_contribution_pct ?a
       = map (\<lambda>c. fl_mul (fl_div c (fl_sum (risk_contribution ?a))) (Fin 100)) (risk_contribution ?a)"
    "fl_sum (risk_contribution_pct ?a) = Fin 100"
    using rc_len rc_sum pct_sum by simp_all
  ultimately show ?thesis by blast
qed

theorem attribution_percentages_sum_to_100_witness:
  "\<exists>a. risk_attribution
          \<lparr>tickers = [''A'', ''B''], weights = [6/10, 4/10], data = None,
           returns = Some \<lparr>columns = [''A'', ''B''],
                          rows = [[Fin (2/100), Fin (1/100)], [Fin (-1/100), Fin 0],
                                  [Fin (3/100), Fin (-2/100)]]\<rparr>\<rparr> = Inr (Some a)
     \<and> asset a = [''A'', ''B'']
     \<and> weight a = [Fin (6/10), Fin (4/10)]
     \<and> fl_sum (risk_contribution a) = Fin 1
     \<and> fl_sum (risk_contribution_pct a) = Fin 100"
proof -
  let ?self = "\<lparr>tickers = [''A'', ''B''], weights = [6/10, 4/10], data = None,
           returns = Some \<lparr>columns = [''A'', ''B''],
                          rows = [[Fin (2/100), Fin (1/100)], [Fin (-1/100), Fin 0],
                                  [Fin (3/100), Fin (-2/100)]]\<rparr>\<rparr>"
  have pv: "portfolio_variance ?self = Some (Fin (2037/62500))"
    by (simp add: portfolio_variance_def cov_def cov_pair_def column_def mat_dot_def dot_def
          fl_sum_def fl_sub_def Let_def upt_conv_Cons numeral_2_eq_2)
  have pos: "(0::real) < 2037/62500" by simp
  have len: "length (tickers ?self) = length (weights ?self)" by simp
  from attribution_percentages_sum_to_100 [OF pv pos len] obtain a
    where "risk_attribution ?self = Inr (Some a)" "asset a = tickers ?self"
      "weight a = map Fin (weights ?self)" "fl_sum (risk_contribution a) = Fin 1"
      "fl_sum (risk_contribution_pct a) = Fin 100"
    by blast
  then show ?thesis by (intro exI [of _ a]) simp
qed

end
